theory Spec2Isabelle
  imports Main "HOL-Library.Word" "HOL-Library.Char_ord" "HOL-Library.List_Lexorder"
begin

unbundle bit_operations_syntax

section \<open>Common vocabulary\<close>

text \<open>
  Python integers are unbounded and are modelled as \<open>int\<close>; \<open>//\<close> and \<open>%\<close> round towards
  minus infinity as \<open>div\<close> and \<open>mod\<close> on \<open>int\<close> do.  A \<open>bytes\<close> object is a list of
  8-bit words.  A Python \<open>str\<close> of the block-state grammar, of the plan files and of the
  palette labels is a \<open>string\<close>: a list of characters with code points below 256.
  Every exception of the source is a value of \<open>error\<close>, returned as \<open>Inl\<close>.
\<close>

type_synonym byte = "8 word"

datatype error =
    IndexError
  | KeyError
  | ValueError
  | TypeError
  | StructError
  | UnicodeError
  | FileNotFoundError
  | RuntimeError string
  | NBTError string
  | StructgenError string
  | DecompressError
  | OverflowError

definition bind_err :: "error + 'a \<Rightarrow> ('a \<Rightarrow> error + 'b) \<Rightarrow> error + 'b" where
  "bind_err m f = (case m of Inl e \<Rightarrow> Inl e | Inr v \<Rightarrow> f v)"

text \<open>Indexing \<open>xs[i]\<close> of a Python list or bytes object.  An index from 0 up to the
  length reads from the front, an index from \<open>-len\<close> up to \<open>-1\<close> reads from the back,
  anything else raises \<open>IndexError\<close>.\<close>

definition py_get :: "'a list \<Rightarrow> int \<Rightarrow> error + 'a" where
  "py_get xs i =
     (if 0 \<le> i \<and> i < int (length xs) then Inr (xs ! nat i)
      else if i < 0 \<and> - int (length xs) \<le> i then Inr (xs ! nat (int (length xs) + i))
      else Inl IndexError)"

text \<open>Python's \<open>a >> n\<close> and \<open>a << n\<close>: a negative shift count raises \<open>ValueError\<close>.\<close>

definition py_rshift :: "int \<Rightarrow> int \<Rightarrow> error + int" where
  "py_rshift a n = (if n < 0 then Inl ValueError else Inr (drop_bit (nat n) a))"

definition py_lshift :: "int \<Rightarrow> int \<Rightarrow> error + int" where
  "py_lshift a n = (if n < 0 then Inl ValueError else Inr (push_bit (nat n) a))"

text \<open>\<open>int.bit_length()\<close> of a non-negative integer.\<close>

fun bit_length :: "nat \<Rightarrow> nat" where
  "bit_length n = (if n = 0 then 0 else Suc (bit_length (n div 2)))"

section \<open>Palette storage: \<open>world_tools.Section\<close>\<close>

record Section =
  sec_y :: int
  sec_palette :: "string list"
  sec_data :: "int list option"
  sec_block_light :: "byte list option"
  sec_sky_light :: "byte list option"

text \<open>The property \<open>Section.bits\<close>: \<open>max(4, (n - 1).bit_length())\<close>, and 0 for a palette of
  at most one label.\<close>

definition Section_bits :: "Section \<Rightarrow> int" where
  "Section_bits s =
     (let n = length (sec_palette s)
      in if n \<le> 1 then 0 else max 4 (int (bit_length (n - 1))))"

text \<open>\<open>Section.palette_index\<close>, with every guard of the source in its order.\<close>

definition Section_palette_index :: "Section \<Rightarrow> int \<Rightarrow> error + int" where
  "Section_palette_index s idx =
     (case sec_data s of
        None \<Rightarrow> Inr 0
      | Some d \<Rightarrow>
          (let bits = Section_bits s in
           if bits \<le> 0 then Inr 0
           else
             (let values_per_long = 64 div bits in
              if values_per_long \<le> 0 then Inr 0
              else
                (let li = idx div values_per_long in
                 if li < 0 \<or> li \<ge> int (length d) then Inr 0
                 else
                   (let off = (idx mod values_per_long) * bits in
                    bind_err (py_lshift 1 bits) (\<lambda>one_shl.
                    let mask = one_shl - 1 in
                    bind_err (py_get d li) (\<lambda>w.
                    bind_err (py_rshift w off) (\<lambda>shifted.
                    Inr (shifted AND mask)))))))))"

text \<open>The linear index of a cell: \<open>(ly << 8) | (lz << 4) | lx\<close>.\<close>

definition cell_index :: "int \<Rightarrow> int \<Rightarrow> int \<Rightarrow> int" where
  "cell_index lx ly lz = (push_bit 8 ly) OR (push_bit 4 lz) OR lx"

definition Section_block_name :: "Section \<Rightarrow> int \<Rightarrow> int \<Rightarrow> int \<Rightarrow> error + string" where
  "Section_block_name s lx ly lz =
     (let idx = cell_index lx ly lz in
      bind_err (Section_palette_index s idx) (\<lambda>pi.
      if pi < 0 \<or> pi \<ge> int (length (sec_palette s)) then Inr ''minecraft:air''
      else py_get (sec_palette s) pi))"

text \<open>A section whose storage word yields the index 15 for cell 0, beyond its palette of
  three labels.\<close>

definition corrupt_section :: Section where
  "corrupt_section =
     \<lparr> sec_y = 0,
       sec_palette = [''minecraft:stone'', ''minecraft:dirt'', ''minecraft:sand''],
       sec_data = Some [15], sec_block_light = None, sec_sky_light = None \<rparr>"

section \<open>Packing palette storage\<close>

text \<open>
  Modelled from the spec: the writer of a palette storage.  The repository only reads
  storages; its one packer is the helper \<open>pack\<close> of \<open>tests/test_prefab_score.py\<close>, written
  for width 6: \<open>out |= (v & 0x3F) << (i * 6)\<close> over \<open>enumerate(vals)\<close>.  \<open>pack_loop\<close> is
  that loop for a width \<open>w\<close>; \<open>pack_storage\<close> cuts the values into runs of
  \<open>values_per_long = floor(64 / w)\<close> and packs each run into one word, as the spec words it
  and as the test builds its \<open>data\<close> list.
\<close>

fun pack_loop :: "nat \<Rightarrow> nat \<Rightarrow> int \<Rightarrow> int list \<Rightarrow> int" where
  "pack_loop w i out [] = out"
| "pack_loop w i out (v # vs) =
     pack_loop w (Suc i) (out OR push_bit (i * w) (v AND (push_bit w 1 - 1))) vs"

definition pack :: "nat \<Rightarrow> int list \<Rightarrow> int" where
  "pack w vals = pack_loop w 0 0 vals"

definition pack_storage :: "nat \<Rightarrow> int list \<Rightarrow> int list" where
  "pack_storage w vs =
     (let values_per_long = 64 div w
      in map (\<lambda>k. pack w (take values_per_long (drop (k * values_per_long) vs)))
           [0 ..< (length vs + values_per_long - 1) div values_per_long])"

text \<open>The same word, by recursion on the values: the first value in the low bits.\<close>

fun pack_rec :: "nat \<Rightarrow> int list \<Rightarrow> int" where
  "pack_rec w [] = 0"
| "pack_rec w (v # vs) = take_bit w v OR push_bit w (pack_rec w vs)"

text \<open>A section with 41 labels (width 6) holding eleven values.\<close>

definition section6 :: Section where
  "section6 = \<lparr> sec_y = 0, sec_palette = replicate 41 ''minecraft:stone'',
     sec_data = Some (pack_storage 6 [0, 1, 2, 3, 4, 5, 6, 7, 8, 9, 40]),
     sec_block_light = None, sec_sky_light = None \<rparr>"

text \<open>
  Modelled from the spec: the bit width of a palette of \<open>n\<close> labels, "Bit width =
  max(4, ceil(log2(len(palette))))" for a palette of more than one label.  \<open>clog n\<close> is
  \<open>ceil(log2(n))\<close>, by halving.
\<close>

function clog :: "nat \<Rightarrow> nat" where
  "clog n = (if n \<le> 1 then 0 else Suc (clog ((n + 1) div 2)))"
  by pat_completeness auto
termination
  by (relation "measure id") auto

declare clog.simps [simp del]

definition spec_width :: "nat \<Rightarrow> nat" where
  "spec_width n = max 4 (clog n)"

text \<open>A section with 16 labels (width 4) holding seventeen values.\<close>

definition section4 :: Section where
  "section4 = \<lparr> sec_y = 0, sec_palette = replicate 16 ''minecraft:stone'',
     sec_data = Some (pack_storage 4 [2, 15, 0, 0, 0, 0, 0, 0, 0, 0, 0, 0, 0, 0, 0, 0, 9]),
     sec_block_light = None, sec_sky_light = None \<rparr>"

section \<open>Region container: \<open>world_tools.RegionFile\<close>\<close>

text \<open>
  The region directory is a map from region coordinates \<open>(rx, rz)\<close> to the bytes of the file
  \<open>r.<rx>.<rz>.mca\<close>; \<open>None\<close> is a file that does not exist.  The two decompressors of the
  Python standard library, \<open>gzip.decompress\<close> and \<open>zlib.decompress\<close>, are parameters of the
  model.
\<close>

type_synonym region_dir = "int \<times> int \<Rightarrow> byte list option"

type_synonym decompressor = "byte list \<Rightarrow> error + byte list"

definition SECTOR_BYTES :: nat where
  "SECTOR_BYTES = 4096"

definition REGION_HEADER_BYTES :: nat where
  "REGION_HEADER_BYTES = SECTOR_BYTES * 2"

text \<open>\<open>f.seek(pos); f.read(n)\<close> on a file holding \<open>contents\<close>: at most \<open>n\<close> bytes from
  \<open>pos\<close>, and everything up to the end of the file when \<open>n\<close> is negative.\<close>

definition file_read :: "byte list \<Rightarrow> nat \<Rightarrow> int \<Rightarrow> byte list" where
  "file_read contents pos n =
     (if n < 0 then drop pos contents else take (nat n) (drop pos contents))"

text \<open>\<open>struct.unpack(">I", b)[0]\<close>: exactly four bytes, read as a big-endian unsigned
  integer; any other length raises \<open>struct.error\<close>.\<close>

definition be_value :: "byte list \<Rightarrow> int" where
  "be_value bs = foldl (\<lambda>acc b. acc * 256 + uint b) 0 bs"

definition unpack_u32 :: "byte list \<Rightarrow> error + int" where
  "unpack_u32 bs = (if length bs = 4 then Inr (be_value bs) else Inl StructError)"

text \<open>A slice \<open>xs[a:b]\<close> with bounds that are not negative; it never raises.\<close>

definition py_slice :: "'a list \<Rightarrow> nat \<Rightarrow> nat \<Rightarrow> 'a list" where
  "py_slice xs a b = take (b - a) (drop a xs)"

record RegionFile =
  rf_path :: "int \<times> int"
  rf_locations :: "byte list"

text \<open>\<open>RegionFile.__init__\<close>: read the header, refuse a short one, keep the location table.\<close>

definition RegionFile_init :: "region_dir \<Rightarrow> int \<times> int \<Rightarrow> error + RegionFile" where
  "RegionFile_init files path =
     (case files path of
        None \<Rightarrow> Inl FileNotFoundError
      | Some contents \<Rightarrow>
          (let hdr = file_read contents 0 (int REGION_HEADER_BYTES) in
           if length hdr < REGION_HEADER_BYTES
           then Inl (RuntimeError ''short region header'')
           else Inr \<lparr> rf_path = path, rf_locations = py_slice hdr 0 SECTOR_BYTES \<rparr>))"

text \<open>\<open>RegionFile.read_chunk_nbt\<close>.  \<open>Inr None\<close> is Python's \<open>None\<close>.\<close>

definition read_chunk_nbt ::
  "region_dir \<Rightarrow> decompressor \<Rightarrow> decompressor \<Rightarrow> RegionFile \<Rightarrow> int \<Rightarrow> int
     \<Rightarrow> error + byte list option" where
  "read_chunk_nbt files gunzip inflate rf cx cz =
     (let rx = cx div 32;
          rz = cz div 32;
          lcx = cx - rx * 32;
          lcz = cz - rz * 32;
          idx = lcx + lcz * 32;
          loc = py_slice (rf_locations rf) (nat (idx * 4)) (nat (idx * 4 + 4)) in
      bind_err (py_get loc 0) (\<lambda>b0.
      bind_err (py_get loc 1) (\<lambda>b1.
      bind_err (py_get loc 2) (\<lambda>b2.
      let offset = (push_bit 16 (uint b0)) OR (push_bit 8 (uint b1)) OR uint b2 in
      if offset = 0 then Inr None
      else
        (case files (rf_path rf) of
           None \<Rightarrow> Inl FileNotFoundError
         | Some contents \<Rightarrow>
             (let pos = nat offset * SECTOR_BYTES in
              bind_err (unpack_u32 (file_read contents pos 4)) (\<lambda>length_field.
              bind_err (py_get (file_read contents (pos + 4) 1) 0) (\<lambda>ctype.
              let data = file_read contents (pos + 5) (length_field - 1) in
              if ctype = 1 then bind_err (gunzip data) (\<lambda>raw. Inr (Some raw))
              else if ctype = 2 then bind_err (inflate data) (\<lambda>raw. Inr (Some raw))
              else Inl (RuntimeError ''unknown chunk compression type'')))))))))"

text \<open>The sibling reader \<open>_read_chunk_raw\<close> of \<open>waystones-backfill-villages.py\<close> and of
  \<open>detect-pokemart-near-spawn.py\<close> (the two copies are the same text), which takes the
  bytes of the whole region file.\<close>

definition read_chunk_raw ::
  "decompressor \<Rightarrow> decompressor \<Rightarrow> byte list \<Rightarrow> nat \<Rightarrow> nat \<Rightarrow> error + byte list option" where
  "read_chunk_raw gunzip inflate b local_x local_z =
     (if length b < 8192 then Inr None
      else
        (let idx = local_x + local_z * 32 in
         bind_err (unpack_u32 (py_slice b (idx * 4) (idx * 4 + 4))) (\<lambda>loc.
         let off_sectors = (drop_bit 8 loc) AND 0xFFFFFF;
             sector_count = loc AND 0xFF in
         if off_sectors = 0 \<or> sector_count = 0 then Inr None
         else
           (let off = nat off_sectors * 4096 in
            if off + 5 > length b then Inr None
            else
              bind_err (unpack_u32 (py_slice b off (off + 4))) (\<lambda>length_field.
              bind_err (py_get b (int (off + 4))) (\<lambda>compression.
              let payload = py_slice b (off + 5) (nat (int (off + 4) + length_field)) in
              if compression = 1 then bind_err (gunzip payload) (\<lambda>raw. Inr (Some raw))
              else if compression = 2 then bind_err (inflate payload) (\<lambda>raw. Inr (Some raw))
              else if compression = 3 then Inr (Some payload)
              else Inr None))))))"

section \<open>Chunks and the world reader\<close>

record Chunk =
  chunk_cx :: int
  chunk_cz :: int
  is_light_on :: bool
  chunk_sections :: "int \<rightharpoonup> Section"
  heightmaps :: "string \<rightharpoonup> int list"

definition Chunk_block_name :: "Chunk \<Rightarrow> int \<Rightarrow> int \<Rightarrow> int \<Rightarrow> error + string" where
  "Chunk_block_name c x y z =
     (let sy = drop_bit 4 y in
      case chunk_sections c sy of
        None \<Rightarrow> Inr ''minecraft:air''
      | Some sec \<Rightarrow>
          (let lx = x - push_bit 4 (chunk_cx c);
               lz = z - push_bit 4 (chunk_cz c);
               ly = y - push_bit 4 sy in
           if \<not> (0 \<le> lx \<and> lx \<le> 15 \<and> 0 \<le> ly \<and> ly \<le> 15 \<and> 0 \<le> lz \<and> lz \<le> 15)
           then Inr ''minecraft:air''
           else Section_block_name sec lx ly lz))"

text \<open>
  The state of a \<open>WorldReader\<close> is its two caches.  A call returns its result, or the
  exception it raised, together with the caches as the call left them.  The chunk decoder
  \<open>_parse_chunk\<close> is a parameter \<open>parse\<close> of \<open>get_chunk\<close>: the properties proved below
  hold for whatever chunk it returns.
\<close>

record WorldReader =
  region_cache :: "int \<times> int \<rightharpoonup> RegionFile option"
  chunk_cache :: "int \<times> int \<rightharpoonup> Chunk option"

definition WorldReader_init :: WorldReader where
  "WorldReader_init = \<lparr> region_cache = Map.empty, chunk_cache = Map.empty \<rparr>"

definition get_region ::
  "region_dir \<Rightarrow> WorldReader \<Rightarrow> int \<Rightarrow> int \<Rightarrow> (error + RegionFile option) \<times> WorldReader" where
  "get_region files st rx rz =
     (let key = (rx, rz) in
      case region_cache st key of
        Some cached \<Rightarrow> (Inr cached, st)
      | None \<Rightarrow>
          (if files key = None
           then (Inr None, st\<lparr> region_cache := (region_cache st)(key \<mapsto> None) \<rparr>)
           else
             (case RegionFile_init files key of
                Inl e \<Rightarrow> (Inl e, st)
              | Inr rf \<Rightarrow>
                  (Inr (Some rf), st\<lparr> region_cache := (region_cache st)(key \<mapsto> Some rf) \<rparr>))))"

definition get_chunk ::
  "region_dir \<Rightarrow> decompressor \<Rightarrow> decompressor \<Rightarrow> (byte list \<Rightarrow> error + Chunk)
     \<Rightarrow> WorldReader \<Rightarrow> int \<Rightarrow> int \<Rightarrow> (error + Chunk option) \<times> WorldReader" where
  "get_chunk files gunzip inflate parse st cx cz =
     (let key = (cx, cz) in
      case chunk_cache st key of
        Some cached \<Rightarrow> (Inr cached, st)
      | None \<Rightarrow>
          (case get_region files st (cx div 32) (cz div 32) of
             (Inl e, st1) \<Rightarrow> (Inl e, st1)
           | (Inr None, st1) \<Rightarrow>
               (Inr None, st1\<lparr> chunk_cache := (chunk_cache st1)(key \<mapsto> None) \<rparr>)
           | (Inr (Some rf), st1) \<Rightarrow>
               (case read_chunk_nbt files gunzip inflate rf cx cz of
                  Inl e \<Rightarrow> (Inl e, st1)
                | Inr None \<Rightarrow>
                    (Inr None, st1\<lparr> chunk_cache := (chunk_cache st1)(key \<mapsto> None) \<rparr>)
                | Inr (Some raw) \<Rightarrow>
                    (case parse raw of
                       Inl e \<Rightarrow> (Inl e, st1)
                     | Inr chunk \<Rightarrow>
                         (Inr (Some chunk),
                          st1\<lparr> chunk_cache := (chunk_cache st1)(key \<mapsto> Some chunk) \<rparr>)))))"

definition WorldReader_block_name ::
  "region_dir \<Rightarrow> decompressor \<Rightarrow> decompressor \<Rightarrow> (byte list \<Rightarrow> error + Chunk)
     \<Rightarrow> WorldReader \<Rightarrow> int \<Rightarrow> int \<Rightarrow> int \<Rightarrow> (error + string) \<times> WorldReader" where
  "WorldReader_block_name files gunzip inflate parse st x y z =
     (case get_chunk files gunzip inflate parse st (x div 16) (z div 16) of
        (Inl e, st1) \<Rightarrow> (Inl e, st1)
      | (Inr None, st1) \<Rightarrow> (Inr ''minecraft:air'', st1)
      | (Inr (Some chunk), st1) \<Rightarrow> (Chunk_block_name chunk x y z, st1))"

text \<open>
  What a reader with empty caches loads for a chunk: the composition that \<open>get_chunk\<close>
  runs on a cache miss.  It states the cache invariant \<open>cache_ok\<close>: every cached region
  and chunk is what the files give.
\<close>

definition load_chunk ::
  "region_dir \<Rightarrow> decompressor \<Rightarrow> decompressor \<Rightarrow> (byte list \<Rightarrow> error + Chunk)
     \<Rightarrow> int \<times> int \<Rightarrow> error + Chunk option" where
  "load_chunk files gunzip inflate parse key =
     (let rkey = (fst key div 32, snd key div 32) in
      if files rkey = None then Inr None
      else
        bind_err (RegionFile_init files rkey) (\<lambda>rf.
        bind_err (read_chunk_nbt files gunzip inflate rf (fst key) (snd key)) (\<lambda>raw.
        case raw of
          None \<Rightarrow> Inr None
        | Some b \<Rightarrow> bind_err (parse b) (\<lambda>chunk. Inr (Some chunk)))))"

definition region_entry_ok :: "region_dir \<Rightarrow> int \<times> int \<Rightarrow> RegionFile option \<Rightarrow> bool" where
  "region_entry_ok files rkey entry =
     (case entry of
        None \<Rightarrow> files rkey = None
      | Some rf \<Rightarrow> files rkey \<noteq> None \<and> RegionFile_init files rkey = Inr rf)"

definition cache_ok ::
  "region_dir \<Rightarrow> decompressor \<Rightarrow> decompressor \<Rightarrow> (byte list \<Rightarrow> error + Chunk)
     \<Rightarrow> WorldReader \<Rightarrow> bool" where
  "cache_ok files gunzip inflate parse st =
     ((\<forall>rkey entry. region_cache st rkey = Some entry \<longrightarrow> region_entry_ok files rkey entry)
      \<and> (\<forall>key entry. chunk_cache st key = Some entry
            \<longrightarrow> load_chunk files gunzip inflate parse key = Inr entry))"

text \<open>The byte index, in the location table, of the slot of chunk \<open>(cx, cz)\<close>.\<close>

definition slot_pos :: "int \<Rightarrow> int \<Rightarrow> nat" where
  "slot_pos cx cz = nat ((cx - (cx div 32) * 32 + (cz - (cz div 32) * 32) * 32) * 4)"

text \<open>Example files: a region of the directory that holds only region \<open>(0, 0)\<close>; a region
  file with every slot absent; one whose slot 0 holds a three-byte payload at sector 2 under
  a given scheme byte; a file cut short inside its header.\<close>

definition one_file :: "byte list \<Rightarrow> region_dir" where
  "one_file contents = (\<lambda>rkey. if rkey = (0, 0) then Some contents else None)"

definition empty_region :: "byte list" where
  "empty_region = replicate 8192 0"

definition scheme_region :: "byte \<Rightarrow> byte list" where
  "scheme_region scheme = [0, 0, 2, 1] @ replicate 8188 0 @ [0, 0, 0, 4, scheme, 1, 2, 3]"

definition short_region :: "byte list" where
  "short_region = replicate 100 0"

text \<open>A file of 5000 zero bytes: the first header sector is whole, with every slot absent,
  and the second is cut short.\<close>

definition headless_region :: "byte list" where
  "headless_region = replicate 5000 0"

definition stored :: decompressor where
  "stored d = Inr d"

definition demo_chunk :: "int \<Rightarrow> Chunk" where
  "demo_chunk cx =
     \<lparr> chunk_cx = cx, chunk_cz = 0, is_light_on = False,
       chunk_sections = (\<lambda>sy. if sy = 0 then Some corrupt_section else None),
       heightmaps = Map.empty \<rparr>"

definition demo_parse :: "int \<Rightarrow> byte list \<Rightarrow> error + Chunk" where
  "demo_parse cx raw = Inr (demo_chunk cx)"

section \<open>Block-state grammar and transform engine: \<open>tools/structgen/compile.py\<close>\<close>

text \<open>\<open>str.strip()\<close> removes the characters for which \<open>str.isspace()\<close> holds from both
  ends; below code point 256 these are 9 to 13, 28 to 32, 133 and 160.\<close>

definition is_space :: "char \<Rightarrow> bool" where
  "is_space c = (let n = (of_char c :: nat) in (9 \<le> n \<and> n \<le> 13) \<or> (28 \<le> n \<and> n \<le> 32) \<or> n = 133 \<or> n = 160)"

definition strip :: "string \<Rightarrow> string" where
  "strip s = rev (dropWhile is_space (rev (dropWhile is_space s)))"

text \<open>The pattern \<open>STATE_RE\<close>:
  \<^verbatim>\<open>^(?P<name>[a-z0-9_./-]+:[a-z0-9_./-]+)(?:\[(?P<props>.*)\])?$\<close>.
  The character class excludes \<open>:\<close>, \<open>[\<close> and the line feed, so each of the two runs of the name
  is the longest run of class characters and the match is unique.  \<open>.\<close> matches every
  character but the line feed, and \<open>$\<close> matches at the end of the string or before a line
  feed that ends it.  \<open>STATE_RE_match\<close> returns the groups \<open>name\<close> and \<open>props\<close>.\<close>

definition name_char :: "char \<Rightarrow> bool" where
  "name_char c = ((CHR ''a'' \<le> c \<and> c \<le> CHR ''z'') \<or> (CHR ''0'' \<le> c \<and> c \<le> CHR ''9'')
      \<or> c = CHR ''_'' \<or> c = CHR ''.'' \<or> c = CHR ''/'' \<or> c = CHR ''-'')"

definition props_group :: "string \<Rightarrow> string option" where
  "props_group r =
     (if r = [] then None
      else if last r = CHR '']'' \<and> CHR 0x0A \<notin> set (butlast r) then Some (butlast r)
      else if last r = CHR 0x0A \<and> butlast r \<noteq> [] \<and> last (butlast r) = CHR '']''
              \<and> CHR 0x0A \<notin> set (butlast (butlast r)) then Some (butlast (butlast r))
      else None)"

definition STATE_RE_match :: "string \<Rightarrow> (string \<times> string option) option" where
  "STATE_RE_match s =
     (let ns = takeWhile name_char s; r1 = dropWhile name_char s in
      if ns = [] then None
      else case r1 of
        [] \<Rightarrow> None
      | c # r2 \<Rightarrow>
          if c \<noteq> CHR '':'' then None
          else
            (let ms = takeWhile name_char r2; r3 = dropWhile name_char r2;
                 name = ns @ '':'' @ ms in
             if ms = [] then None
             else if r3 = [] \<or> r3 = [CHR 0x0A] then Some (name, None)
             else case r3 of
               [] \<Rightarrow> None
             | b # r4 \<Rightarrow>
                 if b \<noteq> CHR ''['' then None
                 else (case props_group r4 of
                         None \<Rightarrow> None
                       | Some props \<Rightarrow> Some (name, Some props))))"

text \<open>\<open>s.split(c)\<close> for a one-character separator.\<close>

fun split_on :: "char \<Rightarrow> string \<Rightarrow> string list" where
  "split_on c [] = [[]]"
| "split_on c (x # xs) =
     (if x = c then [] # split_on c xs
      else (case split_on c xs of [] \<Rightarrow> [[x]] | h # t \<Rightarrow> (x # h) # t))"

text \<open>A property dict, in insertion order.  \<open>parse_segments\<close> is the loop over
  \<open>props_raw.split(",")\<close> of \<open>parse_block_state\<close>, the dict built so far as its second
  argument.\<close>

type_synonym props = "(string \<times> string) list"

fun parse_segments :: "string list \<Rightarrow> props \<Rightarrow> error + props" where
  "parse_segments [] props = Inr props"
| "parse_segments (segment0 # rest) props =
     (let segment = strip segment0 in
      if segment = [] then parse_segments rest props
      else if CHR ''='' \<notin> set segment then Inl (StructgenError ''invalid property segment'')
      else
        (let k = takeWhile (\<lambda>c. c \<noteq> CHR ''='') segment;
             v = tl (dropWhile (\<lambda>c. c \<noteq> CHR ''='') segment);
             key = strip k;
             val = strip v in
         if key = [] \<or> val = [] then Inl (StructgenError ''invalid property segment'')
         else if key \<in> set (map fst props) then Inl (StructgenError ''duplicate property'')
         else parse_segments rest (props @ [(key, val)])))"

definition parse_block_state :: "string \<Rightarrow> error + (string \<times> props)" where
  "parse_block_state state =
     (case STATE_RE_match (strip state) of
        None \<Rightarrow> Inl (StructgenError ''invalid block state syntax'')
      | Some (name, props_raw) \<Rightarrow>
          (case props_raw of
             None \<Rightarrow> Inr (name, [])
           | Some raw \<Rightarrow>
               if raw = [] then Inr (name, [])
               else bind_err (parse_segments (split_on CHR '','' raw) []) (\<lambda>props. Inr (name, props))))"

text \<open>\<open>sep.join(xs)\<close>, the lookup \<open>props[k]\<close> of a key of the dict, and \<open>canonical_state\<close>.\<close>

fun join :: "string \<Rightarrow> string list \<Rightarrow> string" where
  "join sep [] = []"
| "join sep [x] = x"
| "join sep (x # y # ys) = x @ sep @ join sep (y # ys)"

definition dict_get :: "props \<Rightarrow> string \<Rightarrow> string" where
  "dict_get d k = (case map_of d k of Some v \<Rightarrow> v | None \<Rightarrow> [])"

definition canonical_state :: "string \<Rightarrow> props \<Rightarrow> string" where
  "canonical_state name props =
     (if props = [] then name
      else name @ ''['' @ join '','' (map (\<lambda>k. k @ ''='' @ dict_get props k) (sort (map fst props))) @ '']'')"

text \<open>What \<open>parse_block_state\<close> guarantees of its result: the shape of the name, and keys
  and values that are stripped, not empty and free of separators.\<close>

definition name_ok :: "string \<Rightarrow> bool" where
  "name_ok n = (\<exists>ns ms. n = ns @ '':'' @ ms \<and> ns \<noteq> [] \<and> ms \<noteq> []
                   \<and> (\<forall>c\<in>set ns. name_char c) \<and> (\<forall>c\<in>set ms. name_char c))"

definition key_ok :: "string \<Rightarrow> bool" where
  "key_ok k = (k \<noteq> [] \<and> strip k = k \<and> CHR ''='' \<notin> set k \<and> CHR '','' \<notin> set k \<and> CHR 0x0A \<notin> set k)"

definition val_ok :: "string \<Rightarrow> bool" where
  "val_ok v = (v \<noteq> [] \<and> strip v = v \<and> CHR '','' \<notin> set v \<and> CHR 0x0A \<notin> set v)"

definition props_ok :: "props \<Rightarrow> bool" where
  "props_ok p = (distinct (map fst p) \<and> (\<forall>(k, v)\<in>set p. key_ok k \<and> val_ok v))"


text \<open>The property dict that parsing a canonical string gives back: keys in sorted order.\<close>

definition canon_props :: "props \<Rightarrow> props" where
  "canon_props p = map (\<lambda>k. (k, dict_get p k)) (sort (map fst p))"


text \<open>The transform engine of \<open>compile.py\<close>.  \<open>index_of\<close> is \<open>tuple.index\<close>, which the source
  calls only under the guard \<open>d in HORIZONTAL\<close>.\<close>

definition HORIZONTAL :: "string list" where
  "HORIZONTAL = [''north'', ''east'', ''south'', ''west'']"

fun index_of :: "'a list \<Rightarrow> 'a \<Rightarrow> nat" where
  "index_of [] y = 0"
| "index_of (x # xs) y = (if x = y then 0 else Suc (index_of xs y))"

definition transform_dir :: "string \<Rightarrow> int \<Rightarrow> string \<Rightarrow> string" where
  "transform_dir dir_name rot mirror =
     (let d = (if dir_name \<in> set HORIZONTAL
               then HORIZONTAL ! nat ((int (index_of HORIZONTAL dir_name) + rot div 90) mod 4)
               else dir_name) in
      if mirror = ''left_right''
      then (if d = ''north'' then ''south'' else if d = ''south'' then ''north'' else d)
      else if mirror = ''front_back''
      then (if d = ''east'' then ''west'' else if d = ''west'' then ''east'' else d)
      else d)"

definition transform_orientation :: "string \<Rightarrow> int \<Rightarrow> string \<Rightarrow> string" where
  "transform_orientation orientation rot mirror =
     (if CHR ''_'' \<notin> set orientation then orientation
      else
        (let a = takeWhile (\<lambda>c. c \<noteq> CHR ''_'') orientation;
             b = tl (dropWhile (\<lambda>c. c \<noteq> CHR ''_'') orientation);
             a2 = (if a \<in> set HORIZONTAL then transform_dir a rot mirror else a);
             b2 = (if b \<in> set HORIZONTAL then transform_dir b rot mirror else b)
         in a2 @ ''_'' @ b2))"

definition transform_axis :: "string \<Rightarrow> int \<Rightarrow> string" where
  "transform_axis axis rot =
     (if axis \<notin> {''x'', ''y'', ''z''} then axis
      else if axis = ''y'' then axis
      else if rot \<in> {90, 270} then (if axis = ''x'' then ''z'' else ''x'')
      else axis)"

text \<open>\<open>k in out\<close> and \<open>out[k] = v\<close>: an existing key keeps its place, a new key goes last.\<close>

definition dict_contains :: "props \<Rightarrow> string \<Rightarrow> bool" where
  "dict_contains d k = (k \<in> set (map fst d))"

definition dict_set :: "props \<Rightarrow> string \<Rightarrow> string \<Rightarrow> props" where
  "dict_set d k v =
     (if dict_contains d k then map (\<lambda>(k2, v2). if k2 = k then (k2, v) else (k2, v2)) d
      else d @ [(k, v)])"

text \<open>\<open>transform_state\<close>: the loop over \<open>("facing", "horizontal_facing")\<close>, then
  \<open>orientation\<close>, then \<open>axis\<close>, each on the dict as the step before left it.\<close>

definition transform_state :: "string \<Rightarrow> int \<Rightarrow> string \<Rightarrow> error + string" where
  "transform_state state rot mirror =
     bind_err (parse_block_state state) (\<lambda>(name, props).
       let out = props;
           out = foldl (\<lambda>out k. if dict_contains out k
                                 then dict_set out k (transform_dir (dict_get out k) rot mirror)
                                 else out)
                   out [''facing'', ''horizontal_facing''];
           out = (if dict_contains out ''orientation''
                  then dict_set out ''orientation''
                         (transform_orientation (dict_get out ''orientation'') rot mirror)
                  else out);
           out = (if dict_contains out ''axis''
                  then dict_set out ''axis'' (transform_axis (dict_get out ''axis'') rot)
                  else out)
       in Inr (canonical_state name out))"

definition rotate_size :: "int \<times> int \<times> int \<Rightarrow> int \<Rightarrow> int \<times> int \<times> int" where
  "rotate_size box rot =
     (case box of (sx, sy, sz) \<Rightarrow> if rot \<in> {90, 270} then (sz, sy, sx) else (sx, sy, sz))"

definition rotate_pos ::
  "int \<Rightarrow> int \<Rightarrow> int \<Rightarrow> int \<times> int \<times> int \<Rightarrow> int \<Rightarrow> error + int \<times> int \<times> int" where
  "rotate_pos x y z box rot =
     (case box of (sx, sy, sz) \<Rightarrow>
        if rot = 0 then Inr (x, y, z)
        else if rot = 90 then Inr (z, y, sx - 1 - x)
        else if rot = 180 then Inr (sx - 1 - x, y, sz - 1 - z)
        else if rot = 270 then Inr (sz - 1 - z, y, x)
        else Inl (StructgenError ''unsupported rotation''))"

definition mirror_pos ::
  "int \<Rightarrow> int \<Rightarrow> int \<Rightarrow> int \<times> int \<times> int \<Rightarrow> string \<Rightarrow> error + int \<times> int \<times> int" where
  "mirror_pos x y z box mirror =
     (case box of (sx, sy, sz) \<Rightarrow>
        if mirror = ''none'' then Inr (x, y, z)
        else if mirror = ''left_right'' then Inr (x, y, sz - 1 - z)
        else if mirror = ''front_back'' then Inr (sx - 1 - x, y, z)
        else Inl (StructgenError ''unsupported mirror''))"

definition transform_pos ::
  "int list \<Rightarrow> int \<times> int \<times> int \<Rightarrow> int \<Rightarrow> string \<Rightarrow> error + int \<times> int \<times> int" where
  "transform_pos pos box rot mirror =
     (case pos of
        [x, y, z] \<Rightarrow>
          bind_err (rotate_pos x y z box rot) (\<lambda>(rx, ry, rz).
            mirror_pos rx ry rz (rotate_size box rot) mirror)
      | _ \<Rightarrow> Inl (StructgenError ''position must have 3 values''))"

text \<open>The transform of one property value, by its key: what \<open>transform_state\<close> does to the
  entry of a property map.\<close>

definition transform_value :: "int \<Rightarrow> string \<Rightarrow> string \<Rightarrow> string \<Rightarrow> string" where
  "transform_value rot mirror k v =
     (if k = ''facing'' \<or> k = ''horizontal_facing'' then transform_dir v rot mirror
      else if k = ''orientation'' then transform_orientation v rot mirror
      else if k = ''axis'' then transform_axis v rot
      else v)"

definition transform_props :: "int \<Rightarrow> string \<Rightarrow> props \<Rightarrow> props" where
  "transform_props rot mirror p = map (\<lambda>(k, v). (k, transform_value rot mirror k v)) p"

text \<open>Four quarter turns of a position, each against the box the turn before produced, and
  of a state; the same mirror twice.\<close>

definition rotate_pos4 :: "int \<Rightarrow> int \<Rightarrow> int \<Rightarrow> int \<times> int \<times> int \<Rightarrow> error + int \<times> int \<times> int" where
  "rotate_pos4 x y z box =
     (let s1 = rotate_size box 90; s2 = rotate_size s1 90; s3 = rotate_size s2 90 in
      bind_err (rotate_pos x y z box 90) (\<lambda>(x1, y1, z1).
      bind_err (rotate_pos x1 y1 z1 s1 90) (\<lambda>(x2, y2, z2).
      bind_err (rotate_pos x2 y2 z2 s2 90) (\<lambda>(x3, y3, z3).
      rotate_pos x3 y3 z3 s3 90))))"

definition mirror_pos2 ::
  "int \<Rightarrow> int \<Rightarrow> int \<Rightarrow> int \<times> int \<times> int \<Rightarrow> string \<Rightarrow> error + int \<times> int \<times> int" where
  "mirror_pos2 x y z box mirror =
     bind_err (mirror_pos x y z box mirror) (\<lambda>(x1, y1, z1). mirror_pos x1 y1 z1 box mirror)"

definition rotate_state4 :: "string \<Rightarrow> error + string" where
  "rotate_state4 s =
     bind_err (transform_state s 90 ''none'') (\<lambda>s1.
     bind_err (transform_state s1 90 ''none'') (\<lambda>s2.
     bind_err (transform_state s2 90 ''none'') (\<lambda>s3.
     transform_state s3 90 ''none'')))"

definition mirror_state2 :: "string \<Rightarrow> string \<Rightarrow> error + string" where
  "mirror_state2 s mirror =
     bind_err (transform_state s 0 mirror) (\<lambda>s1. transform_state s1 0 mirror)"

section \<open>Plan validator: \<open>validate_plan_shape\<close>\<close>

text \<open>
  A plan is the value \<open>json.loads\<close> returns.  An object is an association list from keys to
  values in the order of the file; a number with a fraction or an exponent is a float, kept
  as its 64 bits.  \<open>isinstance(v, int)\<close> holds of a \<open>bool\<close> too, which is why the source tests
  \<open>isinstance(v, bool)\<close> first.
\<close>

datatype json =
    JNull
  | JBool bool
  | JInt int
  | JFloat "64 word"
  | JStr string
  | JList "json list"
  | JObj "(string \<times> json) list"

definition SUPPORTED_BIOMES :: "string list" where
  "SUPPORTED_BIOMES = [''plains'', ''desert'', ''savanna'', ''snowy'', ''taiga'']"

definition VALID_JIGSAW_ORIENTATIONS :: "string list" where
  "VALID_JIGSAW_ORIENTATIONS =
     [''down_east'', ''down_north'', ''down_south'', ''down_west'', ''east_up'', ''north_up'',
      ''south_up'', ''up_east'', ''up_north'', ''up_south'', ''up_west'', ''west_up'']"

definition PLAN_TYPES :: "string list" where
  "PLAN_TYPES = [''pokecenter'', ''pokemart'']"

text \<open>\<open>obj[k]\<close> and \<open>k in obj\<close> on a dict.\<close>

definition obj_get :: "(string \<times> json) list \<Rightarrow> string \<Rightarrow> error + json" where
  "obj_get obj k = (case map_of obj k of None \<Rightarrow> Inl KeyError | Some v \<Rightarrow> Inr v)"

definition obj_has :: "(string \<times> json) list \<Rightarrow> string \<Rightarrow> bool" where
  "obj_has obj k = (k \<in> set (map fst obj))"

text \<open>A \<open>for\<close> loop whose body may raise: it stops at the first exception.\<close>

fun for_each :: "('a \<Rightarrow> error + unit) \<Rightarrow> 'a list \<Rightarrow> error + unit" where
  "for_each body [] = Inr ()"
| "for_each body (x # xs) = bind_err (body x) (\<lambda>_. for_each body xs)"

definition require :: "bool \<Rightarrow> string \<Rightarrow> error + unit" where
  "require ok msg = (if ok then Inr () else Inl (StructgenError msg))"

definition check_keys :: "(string \<times> json) list \<Rightarrow> string list \<Rightarrow> string list \<Rightarrow> error + unit" where
  "check_keys obj required optional =
     (let allowed = required @ optional;
          unknown = sort (remdups (filter (\<lambda>k. k \<notin> set allowed) (map fst obj)));
          missing = sort (remdups (filter (\<lambda>k. \<not> obj_has obj k) required)) in
      if missing \<noteq> [] then Inl (StructgenError ''missing keys'')
      else if unknown \<noteq> [] then Inl (StructgenError ''unknown keys'')
      else Inr ())"

definition int_item :: "bool \<Rightarrow> json \<Rightarrow> error + int" where
  "int_item positive item =
     (case item of
        JInt i \<Rightarrow> if positive \<and> i \<le> 0 then Inl (StructgenError ''expected integer > 0'')
                  else Inr i
      | _ \<Rightarrow> Inl (StructgenError ''expected integer''))"

definition as_int_triplet :: "json \<Rightarrow> bool \<Rightarrow> error + int \<times> int \<times> int" where
  "as_int_triplet v positive =
     (case v of
        JList [a, b, c] \<Rightarrow>
          bind_err (int_item positive a) (\<lambda>x.
          bind_err (int_item positive b) (\<lambda>y.
          bind_err (int_item positive c) (\<lambda>z. Inr (x, y, z))))
      | _ \<Rightarrow> Inl (StructgenError ''expected a 3-item list''))"

text \<open>One item of \<open>_as_num_triplet\<close>: a number that is not a boolean, then \<open>float(item)\<close>.
  The conversion of an integer rounds to the nearest double, ties to even, and raises
  \<open>OverflowError\<close> when the result is beyond the largest double \<open>2 ^ 1024 - 2 ^ 971\<close>: that is,
  from \<open>2 ^ 1024 - 2 ^ 970\<close> on in absolute value.  A float converts to itself.\<close>

definition num_item :: "json \<Rightarrow> error + unit" where
  "num_item item =
     (case item of
        JInt i \<Rightarrow> if 2 ^ 1024 - 2 ^ 970 \<le> \<bar>i\<bar> then Inl OverflowError else Inr ()
      | JFloat f \<Rightarrow> Inr ()
      | _ \<Rightarrow> Inl (StructgenError ''expected number''))"

definition as_num_triplet :: "json \<Rightarrow> error + unit" where
  "as_num_triplet v =
     (case v of
        JList [a, b, c] \<Rightarrow>
          bind_err (num_item a) (\<lambda>_. bind_err (num_item b) (\<lambda>_. num_item c))
      | _ \<Rightarrow> Inl (StructgenError ''expected a 3-item list''))"

definition assert_in_bounds :: "int \<times> int \<times> int \<Rightarrow> int \<times> int \<times> int \<Rightarrow> error + unit" where
  "assert_in_bounds pos box =
     (case pos of (x, y, z) \<Rightarrow> case box of (sx, sy, sz) \<Rightarrow>
        if x < 0 \<or> y < 0 \<or> z < 0 \<or> x \<ge> sx \<or> y \<ge> sy \<or> z \<ge> sz
        then Inl (StructgenError ''pos out of bounds'')
        else Inr ())"

text \<open>\<open>isinstance(v, str) and v.strip()\<close>, and a state string that must parse.\<close>

definition nonblank_str :: "json \<Rightarrow> bool" where
  "nonblank_str v = (case v of JStr s \<Rightarrow> strip s \<noteq> [] | _ \<Rightarrow> False)"

definition check_state :: "json \<Rightarrow> string \<Rightarrow> error + unit" where
  "check_state v msg =
     (case v of
        JStr s \<Rightarrow> bind_err (parse_block_state s) (\<lambda>_. Inr ())
      | _ \<Rightarrow> Inl (StructgenError msg))"

text \<open>The body of the loop over \<open>SUPPORTED_BIOMES\<close> that checks one biome's palette.\<close>

definition check_palette :: "(string \<times> json) list \<Rightarrow> string \<Rightarrow> error + unit" where
  "check_palette palette_refs biome =
     bind_err (obj_get palette_refs biome) (\<lambda>palette.
       case palette of
         JObj entries \<Rightarrow>
           for_each (\<lambda>(mk, state).
             bind_err (require (mk \<noteq> []) ''invalid material key'') (\<lambda>_.
             check_state state ''palette state must be string'')) entries
       | _ \<Rightarrow> Inl (StructgenError ''palette must be an object''))"

text \<open>\<open>mk not in palette_refs[biome]\<close>; the palette is a dict once \<open>check_palette\<close> passed.\<close>

definition palette_has :: "(string \<times> json) list \<Rightarrow> string \<Rightarrow> string \<Rightarrow> error + bool" where
  "palette_has palette_refs biome mk =
     bind_err (obj_get palette_refs biome) (\<lambda>palette.
       case palette of
         JObj entries \<Rightarrow> Inr (obj_has entries mk)
       | _ \<Rightarrow> Inl TypeError)"

definition check_block ::
  "(string \<times> json) list \<Rightarrow> int \<times> int \<times> int \<Rightarrow> json \<Rightarrow> error + unit" where
  "check_block palette_refs box block =
     (case block of
        JObj members \<Rightarrow>
          bind_err (check_keys members [''pos'', ''state''] [''material_key'']) (\<lambda>_.
          bind_err (obj_get members ''pos'') (\<lambda>pos_v.
          bind_err (as_int_triplet pos_v False) (\<lambda>pos.
          bind_err (obj_get members ''state'') (\<lambda>state_v.
          bind_err (check_state state_v ''state must be string'') (\<lambda>_.
          bind_err
            (if obj_has members ''material_key''
             then
               bind_err (obj_get members ''material_key'') (\<lambda>mk_v.
                 case mk_v of
                   JStr mk \<Rightarrow>
                     bind_err (require (mk \<noteq> []) ''material_key must be non-empty string'') (\<lambda>_.
                     for_each (\<lambda>biome.
                       bind_err (palette_has palette_refs biome mk) (\<lambda>present.
                       require present ''material_key missing in palette_refs''))
                       SUPPORTED_BIOMES)
                 | _ \<Rightarrow> Inl (StructgenError ''material_key must be non-empty string''))
             else Inr ()) (\<lambda>_.
          assert_in_bounds pos box))))))
      | _ \<Rightarrow> Inl (StructgenError ''block entry must be object''))"

definition check_jigsaw :: "int \<times> int \<times> int \<Rightarrow> json \<Rightarrow> error + unit" where
  "check_jigsaw box jigsaw =
     (case jigsaw of
        JObj members \<Rightarrow>
          bind_err (check_keys members
            [''pos'', ''name'', ''target'', ''pool'', ''final_state'', ''joint'', ''orientation''] []) (\<lambda>_.
          bind_err (obj_get members ''pos'') (\<lambda>pos_v.
          bind_err (as_int_triplet pos_v False) (\<lambda>pos.
          bind_err (assert_in_bounds pos box) (\<lambda>_.
          bind_err (for_each (\<lambda>f.
              bind_err (obj_get members f) (\<lambda>v. require (nonblank_str v) ''must be non-empty string''))
              [''name'', ''target'', ''pool'', ''final_state'', ''joint'', ''orientation'']) (\<lambda>_.
          bind_err (obj_get members ''joint'') (\<lambda>joint.
          bind_err (require (joint \<in> {JStr ''rollable'', JStr ''aligned''})
                      ''joint must be rollable or aligned'') (\<lambda>_.
          bind_err (obj_get members ''orientation'') (\<lambda>orientation.
          bind_err (require (orientation \<in> JStr ` set VALID_JIGSAW_ORIENTATIONS)
                      ''orientation is invalid'') (\<lambda>_.
          bind_err (obj_get members ''final_state'') (\<lambda>final_state.
          check_state final_state ''final_state must be string''))))))))))
      | _ \<Rightarrow> Inl (StructgenError ''jigsaw entry must be object''))"

definition check_template_params :: "(string \<times> json) list \<Rightarrow> error + unit" where
  "check_template_params members =
     bind_err (obj_get members ''template'') (\<lambda>template.
     bind_err (require (nonblank_str template) ''template must be non-empty string'') (\<lambda>_.
     bind_err (obj_get members ''params'') (\<lambda>params.
       case params of
         JObj _ \<Rightarrow> Inr ()
       | _ \<Rightarrow> Inl (StructgenError ''params must be an object''))))"

definition check_block_entity :: "int \<times> int \<times> int \<Rightarrow> json \<Rightarrow> error + unit" where
  "check_block_entity box block_entity =
     (case block_entity of
        JObj members \<Rightarrow>
          bind_err (check_keys members [''pos'', ''template'', ''params''] []) (\<lambda>_.
          bind_err (obj_get members ''pos'') (\<lambda>pos_v.
          bind_err (as_int_triplet pos_v False) (\<lambda>pos.
          bind_err (assert_in_bounds pos box) (\<lambda>_.
          check_template_params members))))
      | _ \<Rightarrow> Inl (StructgenError ''block_entity entry must be object''))"

definition check_entity :: "int \<times> int \<times> int \<Rightarrow> json \<Rightarrow> error + unit" where
  "check_entity box entity =
     (case entity of
        JObj members \<Rightarrow>
          bind_err (check_keys members [''pos'', ''block_pos'', ''template'', ''params''] []) (\<lambda>_.
          bind_err (obj_get members ''pos'') (\<lambda>pos_v.
          bind_err (as_num_triplet pos_v) (\<lambda>_.
          bind_err (obj_get members ''block_pos'') (\<lambda>bp_v.
          bind_err (as_int_triplet bp_v False) (\<lambda>bp.
          bind_err (assert_in_bounds bp box) (\<lambda>_.
          check_template_params members))))))
      | _ \<Rightarrow> Inl (StructgenError ''entity entry must be object''))"

text \<open>A field that must be a list, with the loop over its items.\<close>

definition each_in_list :: "json \<Rightarrow> string \<Rightarrow> (json \<Rightarrow> error + unit) \<Rightarrow> error + unit" where
  "each_in_list v msg body =
     (case v of JList items \<Rightarrow> for_each body items | _ \<Rightarrow> Inl (StructgenError msg))"

definition validate_plan_shape :: "json \<Rightarrow> error + unit" where
  "validate_plan_shape plan =
     (case plan of
        JObj members \<Rightarrow>
          bind_err (check_keys members
            [''schema_version'', ''id'', ''type'', ''size'', ''origin'', ''blocks'', ''jigsaws'',
             ''block_entities'', ''entities'', ''palette_refs'', ''tags''] []) (\<lambda>_.
          bind_err (obj_get members ''schema_version'') (\<lambda>schema_version.
          bind_err (case schema_version of
                      JInt v \<Rightarrow> require (v = 1) ''schema_version must be 1''
                    | _ \<Rightarrow> Inl (StructgenError ''schema_version must be integer'')) (\<lambda>_.
          bind_err (obj_get members ''id'') (\<lambda>plan_id.
          bind_err (require (nonblank_str plan_id) ''id must be non-empty string'') (\<lambda>_.
          bind_err (obj_get members ''type'') (\<lambda>plan_type.
          bind_err (require (plan_type \<in> JStr ` set PLAN_TYPES) ''type must be one of PLAN_TYPES'') (\<lambda>_.
          bind_err (obj_get members ''size'') (\<lambda>size_v.
          bind_err (as_int_triplet size_v True) (\<lambda>box.
          bind_err (obj_get members ''origin'') (\<lambda>origin_v.
          bind_err (as_int_triplet origin_v False) (\<lambda>_.
          bind_err (obj_get members ''tags'') (\<lambda>tags.
          bind_err (each_in_list tags ''tags must be a list''
                      (\<lambda>t. case t of JStr _ \<Rightarrow> Inr ()
                                    | _ \<Rightarrow> Inl (StructgenError ''tags item must be string''))) (\<lambda>_.
          bind_err (obj_get members ''palette_refs'') (\<lambda>palette_refs_v.
            case palette_refs_v of
              JObj palette_refs \<Rightarrow>
                bind_err (require (palette_refs \<noteq> []) ''palette_refs must be a non-empty object'') (\<lambda>_.
                bind_err (require (set (map fst palette_refs) = set SUPPORTED_BIOMES)
                            ''palette_refs must contain exactly the supported biomes'') (\<lambda>_.
                bind_err (for_each (check_palette palette_refs) SUPPORTED_BIOMES) (\<lambda>_.
                bind_err (obj_get members ''blocks'') (\<lambda>blocks.
                bind_err (require (blocks \<noteq> JList []) ''blocks must be a non-empty list'') (\<lambda>_.
                bind_err (each_in_list blocks ''blocks must be a non-empty list''
                            (check_block palette_refs box)) (\<lambda>_.
                bind_err (obj_get members ''jigsaws'') (\<lambda>jigsaws.
                bind_err (each_in_list jigsaws ''jigsaws must be a list'' (\<lambda>_. Inr ())) (\<lambda>_.
                bind_err (require (jigsaws \<noteq> JList []) ''jigsaws must contain at least one entry'') (\<lambda>_.
                bind_err (each_in_list jigsaws ''jigsaws must be a list'' (check_jigsaw box)) (\<lambda>_.
                bind_err (obj_get members ''block_entities'') (\<lambda>block_entities.
                bind_err (each_in_list block_entities ''block_entities must be a list''
                            (check_block_entity box)) (\<lambda>_.
                bind_err (obj_get members ''entities'') (\<lambda>entities.
                each_in_list entities ''entities must be a list'' (check_entity box))))))))))))))
            | _ \<Rightarrow> Inl (StructgenError ''palette_refs must be a non-empty object'')))))))))))))))
      | _ \<Rightarrow> Inl (StructgenError ''plan root must be an object''))"

text \<open>Example plans: one block with a material key, one jigsaw, and a palette per biome of
  a given list.\<close>

definition demo_palette_refs :: "string list \<Rightarrow> (string \<times> json) list" where
  "demo_palette_refs biomes = map (\<lambda>b. (b, JObj [(''wall'', JStr ''minecraft:stone'')])) biomes"

definition demo_block :: "string \<Rightarrow> (string \<times> json) list" where
  "demo_block material =
     [(''pos'', JList [JInt 0, JInt 0, JInt 0]),
      (''state'', JStr ''minecraft:stone''),
      (''material_key'', JStr material)]"

definition demo_members :: "string list \<Rightarrow> string \<Rightarrow> (string \<times> json) list" where
  "demo_members biomes material =
          [(''schema_version'', JInt 1),
           (''id'', JStr ''pokecenter_small''),
           (''type'', JStr ''pokecenter''),
           (''size'', JList [JInt 2, JInt 1, JInt 1]),
           (''origin'', JList [JInt 0, JInt 0, JInt 0]),
           (''blocks'', JList [JObj (demo_block material)]),
           (''jigsaws'', JList [JObj [(''pos'', JList [JInt 1, JInt 0, JInt 0]),
                                      (''name'', JStr ''acm:door''),
                                      (''target'', JStr ''acm:street''),
                                      (''pool'', JStr ''acm:streets''),
                                      (''final_state'', JStr ''minecraft:air''),
                                      (''joint'', JStr ''aligned''),
                                      (''orientation'', JStr ''north_up'')]]),
           (''block_entities'', JList []),
           (''entities'', JList []),
           (''palette_refs'', JObj (demo_palette_refs biomes)),
           (''tags'', JList [JStr ''village''])]"

definition demo_plan :: "string list \<Rightarrow> string \<Rightarrow> json" where
  "demo_plan biomes material = JObj (demo_members biomes material)"

(*DEFS-END*)

section \<open>Verification: palette storage\<close>

lemma bit_length_2: "bit_length 2 = 2"
  by (simp add: numeral_2_eq_2)

lemma storage_offset_nonneg:
  fixes idx v b :: int
  assumes "0 < b" "0 < v"
  shows "0 \<le> (idx mod v) * b"
proof -
  have "0 \<le> idx mod v" using assms(2) by simp
  then show ?thesis using assms(1) by simp
qed

lemma Section_palette_index_total: "\<exists>pi. Section_palette_index s idx = Inr pi"
proof (cases "sec_data s")
  case None
  then show ?thesis by (simp add: Section_palette_index_def)
next
  case (Some d)
  show ?thesis
  proof (cases "Section_bits s \<le> 0 \<or> 64 div Section_bits s \<le> 0")
    case True
    then show ?thesis using Some by (auto simp: Section_palette_index_def Let_def)
  next
    case False
    then have "0 \<le> (idx mod (64 div Section_bits s)) * Section_bits s"
      by (intro storage_offset_nonneg) auto
    then have off: "py_rshift w ((idx mod (64 div Section_bits s)) * Section_bits s)
        = Inr (drop_bit (nat ((idx mod (64 div Section_bits s)) * Section_bits s)) w)" for w
      unfolding py_rshift_def by (simp only: not_less [symmetric] if_False)
    show ?thesis using Some False
      by (auto simp: Section_palette_index_def bind_err_def py_lshift_def py_get_def
          off Let_def)
  qed
qed

lemma corrupt_section_index:
  "Section_palette_index corrupt_section (cell_index 0 0 0) = Inr 15"
  by (simp add: Section_palette_index_def corrupt_section_def Section_bits_def
      cell_index_def bind_err_def py_lshift_def py_get_def py_rshift_def Let_def bit_length_2)

text \<open>
  C2 (as stated, refuted).  The claim says an out-of-range palette index resolves to the
  label at index 0 of the palette.  In \<open>corrupt_section\<close> the index computed for cell
  \<open>(0,0,0)\<close> is 15, the palette has three labels, and \<open>block_name\<close> answers
  \<open>minecraft:air\<close>, which is not the label \<open>minecraft:stone\<close> at index 0.
\<close>

theorem C2_palette_zero_counterexample:
  "Section_palette_index corrupt_section (cell_index 0 0 0) = Inr 15
   \<and> int (length (sec_palette corrupt_section)) \<le> 15
   \<and> Section_block_name corrupt_section 0 0 0 = Inr ''minecraft:air''
   \<and> Section_block_name corrupt_section 0 0 0 \<noteq> Inr (sec_palette corrupt_section ! 0)"
  by (simp add: Section_block_name_def corrupt_section_index bind_err_def)
    (simp add: corrupt_section_def)

text \<open>
  C2 (amended).  For every section and every cell, \<open>palette_index\<close> and \<open>block_name\<close>
  return without raising; when the computed palette index is out of range for the palette,
  \<open>block_name\<close> is the fixed label \<open>minecraft:air\<close>, and otherwise it is the palette
  label at that index.
\<close>

theorem C2_block_name_fallback:
  "\<exists>pi. Section_palette_index s (cell_index lx ly lz) = Inr pi \<and>
     Section_block_name s lx ly lz =
       (if pi < 0 \<or> int (length (sec_palette s)) \<le> pi then Inr ''minecraft:air''
        else Inr (sec_palette s ! nat pi))"
proof -
  obtain pi where pi: "Section_palette_index s (cell_index lx ly lz) = Inr pi"
    using Section_palette_index_total by blast
  then show ?thesis
    by (auto simp: Section_block_name_def bind_err_def py_get_def Let_def)
qed

theorem C2_block_name_fallback_witness:
  "Section_block_name corrupt_section 0 0 0 = Inr ''minecraft:air''"
  using C2_block_name_fallback [of corrupt_section 0 0 0]
  by (simp add: corrupt_section_index) (simp add: corrupt_section_def)

section \<open>Verification: packing and reading back\<close>

lemma low_mask: "(v::int) AND (push_bit w 1 - 1) = take_bit w v"
  by (simp add: take_bit_eq_mask mask_eq_exp_minus_1)

lemma low_mask_pow: "(v::int) AND (2 ^ w - 1) = take_bit w v"
  by (simp add: take_bit_eq_mask mask_eq_exp_minus_1)

lemma pack_loop_rec: "pack_loop w i out vs = out OR push_bit (i * w) (pack_rec w vs)"
proof (induction vs arbitrary: i out)
  case Nil
  then show ?case by simp
next
  case (Cons v vs)
  have "pack_loop w i out (v # vs) =
          pack_loop w (Suc i) (out OR push_bit (i * w) (take_bit w v)) vs"
    by (simp only: pack_loop.simps low_mask)
  then show ?case
    by (simp add: Cons.IH push_bit_or push_bit_add or.assoc add.commute)
qed

lemma pack_eq_rec: "pack w vs = pack_rec w vs"
  by (simp add: pack_def pack_loop_rec)

lemma pack_rec_read:
  assumes "j < length vs" "\<forall>v\<in>set vs. 0 \<le> v \<and> v < 2 ^ w"
  shows "take_bit w (drop_bit (j * w) (pack_rec w vs)) = vs ! j"
  using assms
proof (induction vs arbitrary: j)
  case Nil
  then show ?case by simp
next
  case (Cons v vs)
  show ?case
  proof (cases j)
    case 0
    have "take_bit w v = v" using Cons.prems(2) by (simp add: take_bit_int_eq_self)
    then show ?thesis using 0 by (simp add: take_bit_or take_bit_push_bit)
  next
    case (Suc k)
    have one: "drop_bit w (pack_rec w (v # vs)) = pack_rec w vs"
      by (simp add: drop_bit_or drop_bit_take_bit drop_bit_push_bit)
    have "drop_bit (w + k * w) (pack_rec w (v # vs))
            = drop_bit (k * w) (drop_bit w (pack_rec w (v # vs)))"
      by (simp only: drop_bit_drop_bit add.commute)
    then have "drop_bit (w + k * w) (pack_rec w (v # vs)) = drop_bit (k * w) (pack_rec w vs)"
      by (simp only: one)
    then show ?thesis using Suc Cons by simp
  qed
qed

lemma pack_rec_bound:
  "0 \<le> pack_rec w vs \<and> pack_rec w vs < 2 ^ (length vs * w)"
proof (induction vs)
  case Nil
  then show ?case by simp
next
  case (Cons v vs)
  have a: "0 \<le> take_bit w v" "take_bit w v < 2 ^ w" by simp_all
  have b: "0 \<le> push_bit w (pack_rec w vs)" using Cons by simp
  have "push_bit w (pack_rec w vs) < 2 ^ (w + length vs * w)"
    using Cons by (simp add: push_bit_eq_mult power_add)
  moreover have "take_bit w v < 2 ^ (w + length vs * w)"
    using a(2) by (smt (verit) le_add1 power_increasing)
  ultimately have "take_bit w v OR push_bit w (pack_rec w vs) < 2 ^ (w + length vs * w)"
    using a(1) b by (simp add: OR_upper)
  then show ?case using a b by simp
qed

lemma pack_storage_length:
  "length (pack_storage w vs) = (length vs + 64 div w - 1) div (64 div w)"
  by (simp add: pack_storage_def Let_def)

lemma pack_storage_nth:
  assumes "k < (length vs + 64 div w - 1) div (64 div w)"
  shows "pack_storage w vs ! k = pack_rec w (take (64 div w) (drop (k * (64 div w)) vs))"
  using assms by (simp add: pack_storage_def Let_def pack_eq_rec)

lemma word_index_in_range:
  fixes i n p :: nat
  assumes "i < n" "0 < p"
  shows "i div p < (n + p - 1) div p"
proof -
  have "i div p * p \<le> i" by simp
  then have "i div p * p + p \<le> n + p - 1" using assms by linarith
  then have "(i div p + 1) * p \<le> n + p - 1" by (simp add: algebra_simps)
  then have "i div p + 1 \<le> (n + p - 1) div p"
    using assms(2) by (simp add: less_eq_div_iff_mult_less_eq)
  then show ?thesis by simp
qed

lemma pack_storage_read:
  assumes w: "0 < w" "w \<le> 64"
    and vs: "\<forall>v\<in>set vs. 0 \<le> v \<and> v < 2 ^ w"
    and i: "i < length vs"
  shows "take_bit w (drop_bit ((i mod (64 div w)) * w) (pack_storage w vs ! (i div (64 div w))))
           = vs ! i"
proof -
  define p where "p = 64 div w"
  have p: "0 < p" using w by (simp add: p_def div_greater_zero_iff)
  define k where "k = i div p"
  define j where "j = i mod p"
  have k: "k < (length vs + p - 1) div p"
    unfolding k_def using i p by (rule word_index_in_range)
  have ij: "k * p + j = i" by (simp add: k_def j_def)
  let ?chunk = "take p (drop (k * p) vs)"
  have jl: "j < length ?chunk"
  proof -
    have "j < p" using p by (simp add: j_def)
    moreover have "j < length vs - k * p" using ij i by linarith
    ultimately show ?thesis by simp
  qed
  have "\<forall>v\<in>set ?chunk. 0 \<le> v \<and> v < 2 ^ w"
    using vs by (meson in_set_dropD in_set_takeD)
  then have "take_bit w (drop_bit (j * w) (pack_rec w ?chunk)) = ?chunk ! j"
    using jl by (intro pack_rec_read) auto
  also have "?chunk ! j = vs ! i"
  proof -
    have "k * p \<le> length vs" using ij i by linarith
    then have "drop (k * p) vs ! j = vs ! (k * p + j)" by simp
    then show ?thesis using jl ij by simp
  qed
  finally show ?thesis
    using k by (simp add: pack_storage_nth p_def [symmetric] k_def [symmetric] j_def [symmetric])
qed

lemma round_trip_at_width:
  assumes "Section_bits s = int w" "0 < w" "w \<le> 64"
    and "\<forall>v\<in>set vs. 0 \<le> v \<and> v < 2 ^ w"
    and "sec_data s = Some (pack_storage w vs)"
  shows "(\<forall>i < length vs. Section_palette_index s (int i) = Inr (vs ! i))
       \<and> length (pack_storage w vs) = (length vs + 64 div w - 1) div (64 div w)
       \<and> (\<forall>x\<in>set (pack_storage w vs). 0 \<le> x \<and> x < 2 ^ 64)"
proof -
  have rt: "Section_palette_index s (int i) = Inr (vs ! i)" if i: "i < length vs" for i
  proof -
    define p where "p = 64 div w"
    have p: "0 < p" using assms(2,3) by (simp add: p_def div_greater_zero_iff)
    have vpl: "64 div int w = int p"
      by (simp add: p_def zdiv_int)
    have li: "int i div int p = int (i div p)" by (simp add: zdiv_int)
    have md: "int i mod int p = int (i mod p)" by (simp add: zmod_int)
    have k: "i div p < length (pack_storage w vs)"
      using word_index_in_range [OF i p] by (simp add: pack_storage_length p_def)
    have rd: "take_bit w (drop_bit ((i mod p) * w) (pack_storage w vs ! (i div p))) = vs ! i"
      unfolding p_def by (rule pack_storage_read [OF assms(2,3,4) i])
    have off: "nat (int (i mod p) * int w) = (i mod p) * w"
      by (simp add: nat_mult_distrib)
    have nn: "\<not> int (i mod p) * int w < 0"
      by (simp add: not_less)
    have "Section_palette_index s (int i)
            = Inr (take_bit w (drop_bit ((i mod p) * w) (pack_storage w vs ! (i div p))))"
      using assms(2) p k nn
      by (simp add: Section_palette_index_def assms(1,5) vpl li md bind_err_def py_lshift_def
          py_get_def py_rshift_def Let_def off low_mask_pow)
    then show ?thesis by (simp only: rd)
  qed
  have bound: "0 \<le> x \<and> x < 2 ^ 64" if "x \<in> set (pack_storage w vs)" for x
  proof -
    from that obtain k where x: "x = pack_rec w (take (64 div w) (drop (k * (64 div w)) vs))"
      by (auto simp: pack_storage_def Let_def pack_eq_rec)
    let ?c = "take (64 div w) (drop (k * (64 div w)) vs)"
    have "length ?c * w \<le> (64 div w) * w" by simp
    also have "\<dots> \<le> 64" by simp
    finally have "(2::int) ^ (length ?c * w) \<le> 2 ^ 64" by (intro power_increasing) auto
    then show ?thesis
      using pack_rec_bound [of w ?c] x by auto
  qed
  show ?thesis using rt bound pack_storage_length by blast
qed

lemma bit_length_40: "bit_length 40 = 6"
  by code_simp

lemma bit_length_15: "bit_length 15 = 4"
  by code_simp

lemma clog_small: "n \<le> 1 \<Longrightarrow> clog n = 0"
  by (subst clog.simps) simp

lemma clog_step: "\<not> n \<le> 1 \<Longrightarrow> clog n = Suc (clog ((n + 1) div 2))"
  by (subst clog.simps) simp

lemma bit_length_clog: "bit_length (n - 1) = clog n"
proof (induction n rule: clog.induct)
  case (1 n)
  show ?case
  proof (cases "n \<le> 1")
    case True
    then have "n - 1 = 0" by simp
    then show ?thesis using True by (simp add: clog_small)
  next
    case False
    let ?m = "(n + 1) div 2"
    have m: "(n - 1) div 2 = ?m - 1" using False by linarith
    have "bit_length (n - 1) = Suc (bit_length ((n - 1) div 2))"
      using False by (subst bit_length.simps) simp
    also have "\<dots> = Suc (clog ?m)" using "1.IH" [OF False] by (simp only: m)
    also have "\<dots> = clog n" using clog_step [OF False] by simp
    finally show ?thesis .
  qed
qed

lemma clog_bounds: "n \<le> 2 ^ clog n \<and> (2 \<le> n \<longrightarrow> 2 ^ (clog n - 1) < n)"
proof (induction n rule: clog.induct)
  case (1 n)
  show ?case
  proof (cases "n \<le> 1")
    case True
    then show ?thesis by (simp add: clog_small)
  next
    case False
    let ?m = "(n + 1) div 2"
    have c: "clog n = Suc (clog ?m)" using False by (rule clog_step)
    have ih: "?m \<le> 2 ^ clog ?m" "2 \<le> ?m \<longrightarrow> 2 ^ (clog ?m - 1) < ?m"
      using "1.IH" [OF False] by simp_all
    have up: "n \<le> 2 ^ clog n"
    proof -
      have "n \<le> 2 * ?m" by linarith
      also have "\<dots> \<le> 2 * 2 ^ clog ?m" using ih(1) by simp
      finally show ?thesis by (simp add: c)
    qed
    have low: "2 ^ (clog n - 1) < n"
    proof (cases "2 \<le> ?m")
      case True
      then have pos: "0 < clog ?m" by (simp add: clog_step)
      have "(2::nat) ^ clog ?m = 2 * 2 ^ (clog ?m - 1)"
        using pos by (metis power_eq_if less_numeral_extra(3))
      also have "\<dots> < 2 * ?m" using ih(2) True by simp
      finally have "2 ^ clog ?m + 1 \<le> 2 * ?m" by simp
      moreover have "even ((2::nat) ^ clog ?m)" using pos by simp
      ultimately have "2 ^ clog ?m < n" by presburger
      then show ?thesis by (simp add: c)
    next
      case F: False
      then have "?m \<le> 1" by simp
      then have "clog ?m = 0" by (rule clog_small)
      then show ?thesis using False by (simp add: c)
    qed
    show ?thesis using up low by simp
  qed
qed

lemma bit_length_le:
  assumes "n \<le> 2 ^ k"
  shows "clog n \<le> k"
proof (rule ccontr)
  assume "\<not> clog n \<le> k"
  then have k: "k \<le> clog n - 1" and pos: "0 < clog n" by simp_all
  have "2 \<le> n"
  proof (rule ccontr)
    assume "\<not> 2 \<le> n"
    then have "clog n = 0" by (simp add: clog_small)
    then show False using pos by simp
  qed
  then have "2 ^ (clog n - 1) < n" using clog_bounds by blast
  moreover have "(2::nat) ^ k \<le> 2 ^ (clog n - 1)" using k by (intro power_increasing) simp_all
  ultimately have "2 ^ k < n" by linarith
  then show False using assms by linarith
qed

lemma Section_bits_spec:
  assumes "2 \<le> length (sec_palette s)"
  shows "Section_bits s = int (spec_width (length (sec_palette s)))"
proof -
  have "Section_bits s = max 4 (int (bit_length (length (sec_palette s) - 1)))"
    using assms by (simp add: Section_bits_def Let_def del: bit_length.simps)
  also have "\<dots> = int (max 4 (clog (length (sec_palette s))))"
    by (simp only: bit_length_clog of_nat_max of_nat_numeral)
  finally show ?thesis by (simp only: spec_width_def)
qed

lemma palette_index_single:
  assumes "length (sec_palette s) \<le> 1"
  shows "Section_palette_index s idx = Inr 0"
proof -
  have "Section_bits s = 0" using assms by (simp add: Section_bits_def Let_def del: bit_length.simps)
  then show ?thesis by (simp add: Section_palette_index_def Let_def split: option.splits)
qed

text \<open>
  C7.  BitStorage round trip.  Let a section have a palette of \<open>n\<close> labels, from 2 up to
  \<open>2 ^ 64\<close>, and let \<open>w\<close> be the bit width the spec gives for \<open>n\<close>,
  \<open>max(4, ceil(log2(n)))\<close>.  Let the storage be the packing of \<open>N\<close> values below \<open>2 ^ w\<close>,
  \<open>floor(64 / w)\<close> to a word, value \<open>i\<close> at bit offset \<open>(i mod values_per_long) * w\<close> of word
  \<open>i div values_per_long\<close>.  Then the width the reader computes, \<open>Section.bits\<close>, is \<open>w\<close>;
  \<open>palette_index\<close> reads every value back; the storage has \<open>ceil(N / values_per_long)\<close>
  words; and each word fits in 64 bits, so no value spans two words.
\<close>

theorem C7_bitstorage_round_trip:
  assumes "2 \<le> length (sec_palette s)" "length (sec_palette s) \<le> 2 ^ 64"
    and "w = spec_width (length (sec_palette s))"
    and "\<forall>v\<in>set vs. 0 \<le> v \<and> v < 2 ^ w"
    and "sec_data s = Some (pack_storage w vs)"
  shows "Section_bits s = int w \<and> 4 \<le> w \<and> w \<le> 64
       \<and> (\<forall>i < length vs. Section_palette_index s (int i) = Inr (vs ! i))
       \<and> length (pack_storage w vs) = (length vs + 64 div w - 1) div (64 div w)
       \<and> (\<forall>x\<in>set (pack_storage w vs). 0 \<le> x \<and> x < 2 ^ 64)"
proof -
  have b: "Section_bits s = int w" unfolding assms(3) by (rule Section_bits_spec [OF assms(1)])
  have "clog (length (sec_palette s)) \<le> 64" by (rule bit_length_le [OF assms(2)])
  then have w: "4 \<le> w" "w \<le> 64" unfolding assms(3) by (simp_all add: spec_width_def)
  then have "0 < w" by simp
  from round_trip_at_width [OF b this w(2) assms(4,5)] b w show ?thesis by simp
qed

lemma spec_width_41: "spec_width 41 = 6"
  by (simp add: spec_width_def bit_length_clog [symmetric] bit_length_40)

lemma spec_width_16: "spec_width 16 = 4"
  by (simp add: spec_width_def bit_length_clog [symmetric] bit_length_15)

text \<open>Width 6 (41 labels): ten values to a word, and the eleventh value is read from a
  second word.  Width 4 (16 labels): sixteen values to a word, the seventeenth in a second
  word.\<close>

theorem C7_bitstorage_round_trip_witness:
  "Section_bits section6 = 6
   \<and> (64::nat) div 6 = 10
   \<and> Section_palette_index section6 10 = Inr 40
   \<and> Section_palette_index section6 9 = Inr 9
   \<and> length (pack_storage 6 [0, 1, 2, 3, 4, 5, 6, 7, 8, 9, 40]) = 2
   \<and> Section_bits section4 = 4
   \<and> Section_palette_index section4 1 = Inr 15
   \<and> Section_palette_index section4 16 = Inr 9
   \<and> length (pack_storage 4 [2, 15, 0, 0, 0, 0, 0, 0, 0, 0, 0, 0, 0, 0, 0, 0, 9]) = 2"
proof -
  let ?vs = "[0, 1, 2, 3, 4, 5, 6, 7, 8, 9, 40] :: int list"
  let ?us = "[2, 15, 0, 0, 0, 0, 0, 0, 0, 0, 0, 0, 0, 0, 0, 0, 9] :: int list"
  have n6: "length (sec_palette section6) = 41" and n4: "length (sec_palette section4) = 16"
    by (simp_all add: section6_def section4_def)
  have h1: "2 \<le> length (sec_palette section6)" "length (sec_palette section6) \<le> 2 ^ 64"
    "6 = spec_width (length (sec_palette section6))"
    by (simp_all add: n6 spec_width_41)
  have g1: "2 \<le> length (sec_palette section4)" "length (sec_palette section4) \<le> 2 ^ 64"
    "4 = spec_width (length (sec_palette section4))"
    by (simp_all add: n4 spec_width_16)
  have h4: "\<forall>v\<in>set ?vs. 0 \<le> v \<and> v < 2 ^ 6" by simp
  have g4: "\<forall>v\<in>set ?us. 0 \<le> v \<and> v < 2 ^ 4" by simp
  have h5: "sec_data section6 = Some (pack_storage 6 ?vs)" by (simp add: section6_def)
  have g5: "sec_data section4 = Some (pack_storage 4 ?us)" by (simp add: section4_def)
  note r6 = C7_bitstorage_round_trip [OF h1 h4 h5]
  note r4 = C7_bitstorage_round_trip [OF g1 g4 g5]
  have a: "i < length ?vs \<Longrightarrow> Section_palette_index section6 (int i) = Inr (?vs ! i)"
    for i using r6 by blast
  have c: "i < length ?us \<Longrightarrow> Section_palette_index section4 (int i) = Inr (?us ! i)"
    for i using r4 by blast
  have "Section_palette_index section6 (int 10) = Inr (?vs ! 10)" by (rule a) simp
  moreover have "Section_palette_index section6 (int 9) = Inr (?vs ! 9)" by (rule a) simp
  moreover have "Section_palette_index section4 (int 1) = Inr (?us ! 1)" by (rule c) simp
  moreover have "Section_palette_index section4 (int 16) = Inr (?us ! 16)" by (rule c) simp
  moreover have "length (pack_storage 6 ?vs) = 2" "length (pack_storage 4 ?us) = 2"
    using r6 r4 by simp_all
  moreover have "Section_bits section6 = 6" "Section_bits section4 = 4"
    using r6 r4 by simp_all
  ultimately show ?thesis by simp
qed

section \<open>Verification: region container and world reader\<close>

lemma bind_err_Inr: "bind_err (Inr v) f = f v"
  by (simp add: bind_err_def)

lemma bind_err_Inl: "bind_err (Inl e) f = Inl e"
  by (simp add: bind_err_def)

lemma slot_pos_eq: "slot_pos cx cz = 4 * nat (cx mod 32 + (cz mod 32) * 32)"
proof -
  have a: "cx - (cx div 32) * 32 = cx mod 32" "cz - (cz div 32) * 32 = cz mod 32"
    by (simp_all add: minus_div_mult_eq_mod)
  have "0 \<le> cx mod 32" "0 \<le> cz mod 32" by simp_all
  then have "0 \<le> cx mod 32 + (cz mod 32) * 32" by linarith
  then show ?thesis
    unfolding slot_pos_def a by (simp add: nat_mult_distrib mult.commute)
qed

lemma slot_pos_bound: "slot_pos cx cz + 4 \<le> 4096"
proof -
  have "cx mod 32 < 32" "cz mod 32 < 32" "0 \<le> cx mod 32" "0 \<le> cz mod 32" by simp_all
  then have "nat (cx mod 32 + (cz mod 32) * 32) < 1024" by linarith
  then show ?thesis unfolding slot_pos_eq by linarith
qed

lemma RegionFile_init_short:
  assumes "files path = Some contents" "length contents < 8192"
  shows "RegionFile_init files path = Inl (RuntimeError ''short region header'')"
  using assms
  by (simp add: RegionFile_init_def file_read_def REGION_HEADER_BYTES_def SECTOR_BYTES_def Let_def)

lemma RegionFile_init_ok:
  assumes "files path = Some contents" "8192 \<le> length contents"
  shows "RegionFile_init files path = Inr \<lparr> rf_path = path, rf_locations = take 4096 contents \<rparr>"
  using assms
  by (simp add: RegionFile_init_def file_read_def REGION_HEADER_BYTES_def SECTOR_BYTES_def Let_def
      py_slice_def min_def)

lemma location_bytes:
  assumes "4096 \<le> length locs" "p + 4 \<le> 4096" "j < 4"
  shows "py_get (py_slice (take 4096 locs) p (p + 4)) (int j) = Inr (locs ! (p + j))"
  using assms by (auto simp: py_get_def py_slice_def min_def)

lemma read_chunk_nbt_offset:
  assumes "4096 \<le> length contents"
  shows "read_chunk_nbt files gunzip inflate \<lparr> rf_path = path, rf_locations = take 4096 contents \<rparr> cx cz =
     (let offset = (push_bit 16 (uint (contents ! slot_pos cx cz)))
                     OR (push_bit 8 (uint (contents ! (slot_pos cx cz + 1))))
                     OR uint (contents ! (slot_pos cx cz + 2)) in
      if offset = 0 then Inr None
      else
        (case files path of
           None \<Rightarrow> Inl FileNotFoundError
         | Some whole \<Rightarrow>
             (let pos = nat offset * 4096 in
              bind_err (unpack_u32 (file_read whole pos 4)) (\<lambda>length_field.
              bind_err (py_get (file_read whole (pos + 4) 1) 0) (\<lambda>ctype.
              let data = file_read whole (pos + 5) (length_field - 1) in
              if ctype = 1 then bind_err (gunzip data) (\<lambda>raw. Inr (Some raw))
              else if ctype = 2 then bind_err (inflate data) (\<lambda>raw. Inr (Some raw))
              else Inl (RuntimeError ''unknown chunk compression type''))))))"
proof -
  let ?p = "slot_pos cx cz"
  have p: "?p + 4 \<le> 4096" by (rule slot_pos_bound)
  have n: "nat ((cx - cx div 32 * 32 + (cz - cz div 32 * 32) * 32) * 4) = ?p"
    "nat ((cx - cx div 32 * 32 + (cz - cz div 32 * 32) * 32) * 4 + 4) = ?p + 4"
    using slot_pos_bound [of cx cz] by (simp_all add: slot_pos_def nat_add_distrib)
  have b: "py_get (py_slice (take 4096 contents) ?p (?p + 4)) 0 = Inr (contents ! ?p)"
    "py_get (py_slice (take 4096 contents) ?p (?p + 4)) 1 = Inr (contents ! (?p + 1))"
    "py_get (py_slice (take 4096 contents) ?p (?p + 4)) 2 = Inr (contents ! (?p + 2))"
    using location_bytes [OF assms p, of 0] location_bytes [OF assms p, of 1]
      location_bytes [OF assms p, of 2] by simp_all
  show ?thesis
    unfolding read_chunk_nbt_def Let_def n
    by (simp only: RegionFile.select_convs b bind_err_Inr SECTOR_BYTES_def)
qed


lemma read_chunk_nbt_absent:
  assumes "4096 \<le> length contents"
    and "contents ! slot_pos cx cz = 0" "contents ! (slot_pos cx cz + 1) = 0"
      "contents ! (slot_pos cx cz + 2) = 0"
  shows "read_chunk_nbt files gunzip inflate
           \<lparr> rf_path = path, rf_locations = take 4096 contents \<rparr> cx cz = Inr None"
  using assms(2-4) by (simp add: read_chunk_nbt_offset [OF assms(1)] Let_def)

text \<open>
C4 (amended).  For a region file with a complete header (at least 8192 bytes),
  \<open>RegionFile\<close> is built and \<open>read_chunk_nbt\<close> returns \<open>None\<close>, not an error, for every chunk
  coordinate whose slot has the 24-bit sector offset zero.  A region file shorter than the
  two 4096-byte header sectors is refused when it is opened: \<open>RegionFile.__init__\<close> raises
  \<open>RuntimeError("short region header")\<close>, so no lookup returns \<open>None\<close> for it.
\<close>

theorem C4_absent_slot_and_short_file:
  assumes "files path = Some contents"
  shows "(length contents < 8192
            \<longrightarrow> RegionFile_init files path = Inl (RuntimeError ''short region header''))
       \<and> (8192 \<le> length contents
            \<longrightarrow> (\<exists>rf. RegionFile_init files path = Inr rf
                  \<and> (\<forall>cx cz. contents ! slot_pos cx cz = 0
                          \<and> contents ! (slot_pos cx cz + 1) = 0
                          \<and> contents ! (slot_pos cx cz + 2) = 0
                        \<longrightarrow> read_chunk_nbt files gunzip inflate rf cx cz = Inr None)))"
proof (intro conjI impI)
  assume "length contents < 8192"
  then show "RegionFile_init files path = Inl (RuntimeError ''short region header'')"
    using RegionFile_init_short [of files path contents] assms by simp
next
  assume len: "8192 \<le> length contents"
  then have l: "4096 \<le> length contents" by simp
  show "\<exists>rf. RegionFile_init files path = Inr rf
          \<and> (\<forall>cx cz. contents ! slot_pos cx cz = 0
                  \<and> contents ! (slot_pos cx cz + 1) = 0
                  \<and> contents ! (slot_pos cx cz + 2) = 0
                \<longrightarrow> read_chunk_nbt files gunzip inflate rf cx cz = Inr None)"
    using RegionFile_init_ok [of files path contents] assms len
      read_chunk_nbt_absent [OF l, of _ _ files gunzip inflate path] by blast
qed

lemma slot_pos_5_7: "slot_pos 5 7 = 916"
  by (simp add: slot_pos_def)

text \<open>
An empty region file answers \<open>None\<close> for chunk \<open>(5, 7)\<close>; a file of 100 bytes is refused.
\<close>

theorem C4_absent_slot_and_short_file_witness:
  "RegionFile_init (one_file short_region) (0, 0) = Inl (RuntimeError ''short region header'')
   \<and> (\<exists>rf. RegionFile_init (one_file empty_region) (0, 0) = Inr rf
         \<and> read_chunk_nbt (one_file empty_region) stored stored rf 5 7 = Inr None)"
proof -
  have s: "one_file short_region (0, 0) = Some short_region"
    and e: "one_file empty_region (0, 0) = Some empty_region"
    by (simp_all add: one_file_def)
  have "RegionFile_init (one_file short_region) (0, 0) = Inl (RuntimeError ''short region header'')"
    using C4_absent_slot_and_short_file [of "one_file short_region" "(0, 0)" short_region] s
    by (simp add: short_region_def)
  moreover have "\<exists>rf. RegionFile_init (one_file empty_region) (0, 0) = Inr rf
         \<and> read_chunk_nbt (one_file empty_region) stored stored rf 5 7 = Inr None"
    using C4_absent_slot_and_short_file
      [of "one_file empty_region" "(0, 0)" empty_region stored stored] e
    by (auto simp: empty_region_def slot_pos_5_7)
  ultimately show ?thesis by simp
qed

text \<open>
C4 (as stated, refuted).  The claim says a lookup returns \<open>None\<close> when the region file is
  shorter than the two header sectors.  For a region file of 100 bytes the constructor
  raises, and so does \<open>get_chunk\<close>, the only caller that builds a \<open>RegionFile\<close>.
\<close>

theorem C4_short_file_counterexample:
  "one_file short_region (0, 0) = Some short_region
   \<and> length short_region < 8192
   \<and> RegionFile_init (one_file short_region) (0, 0) = Inl (RuntimeError ''short region header'')
   \<and> fst (get_chunk (one_file short_region) stored stored (demo_parse 0) WorldReader_init 0 0)
        = Inl (RuntimeError ''short region header'')
   \<and> fst (get_chunk (one_file short_region) stored stored (demo_parse 0) WorldReader_init 0 0)
        \<noteq> Inr None"
proof -
  have s: "one_file short_region (0, 0) = Some short_region" by (simp add: one_file_def)
  have l: "length short_region < 8192" by (simp add: short_region_def)
  have i: "RegionFile_init (one_file short_region) (0, 0) = Inl (RuntimeError ''short region header'')"
    using RegionFile_init_short [of "one_file short_region" "(0, 0)" short_region] s l by simp
  have "get_chunk (one_file short_region) stored stored (demo_parse 0) WorldReader_init 0 0
          = (Inl (RuntimeError ''short region header''), WorldReader_init)"
    by (simp add: get_chunk_def get_region_def WorldReader_init_def Let_def s i)
  then show ?thesis using s l i by simp
qed

lemma scheme_region_bytes:
  "length (scheme_region c) = 8200"
  "scheme_region c ! 0 = 0" "scheme_region c ! 1 = 0" "scheme_region c ! 2 = 2"
  "scheme_region c ! 3 = 1"
  "drop 8192 (scheme_region c) = [0, 0, 0, 4, c, 1, 2, 3]"
  by (simp_all add: scheme_region_def)

lemma scheme_region_chunk:
  "file_read (scheme_region c) 8192 4 = [0, 0, 0, 4]"
  "file_read (scheme_region c) 8196 1 = [c]"
  "file_read (scheme_region c) 8197 3 = [1, 2, 3]"
proof -
  have d: "drop 8196 (scheme_region c) = drop 4 (drop 8192 (scheme_region c))"
    "drop 8197 (scheme_region c) = drop 5 (drop 8192 (scheme_region c))"
    by simp_all
  show "file_read (scheme_region c) 8192 4 = [0, 0, 0, 4]"
    "file_read (scheme_region c) 8196 1 = [c]"
    "file_read (scheme_region c) 8197 3 = [1, 2, 3]"
    unfolding file_read_def d by (simp_all add: scheme_region_bytes)
qed

lemma scheme_region_slices:
  "py_slice (scheme_region c) 0 4 = [0, 0, 2, 1]"
  "py_slice (scheme_region c) 8192 8196 = [0, 0, 0, 4]"
  "py_get (scheme_region c) 8196 = Inr c"
  "py_slice (scheme_region c) 8197 8200 = [1, 2, 3]"
proof -
  show "py_slice (scheme_region c) 0 4 = [0, 0, 2, 1]"
    by (simp add: py_slice_def scheme_region_def)
  show "py_slice (scheme_region c) 8192 8196 = [0, 0, 0, 4]"
    using scheme_region_chunk(1) [of c] by (simp add: py_slice_def file_read_def)
  show "py_slice (scheme_region c) 8197 8200 = [1, 2, 3]"
    using scheme_region_chunk(3) [of c] by (simp add: py_slice_def file_read_def)
  have "scheme_region c ! (8192 + 4) = drop 8192 (scheme_region c) ! 4"
    by (simp add: scheme_region_bytes(1))
  then have "scheme_region c ! 8196 = c"
    by (simp add: scheme_region_bytes(6))
  then show "py_get (scheme_region c) 8196 = Inr c"
    by (simp add: py_get_def scheme_region_bytes(1))
qed

lemma read_raw_scheme_region:
  "read_chunk_raw gunzip inflate (scheme_region c) 0 0
    = (if c = 1 then bind_err (gunzip [1, 2, 3]) (\<lambda>raw. Inr (Some raw))
       else if c = 2 then bind_err (inflate [1, 2, 3]) (\<lambda>raw. Inr (Some raw))
       else if c = 3 then Inr (Some [1, 2, 3])
       else Inr None)"
proof -
  have v: "be_value [0, 0, 2, 1] = 513" "be_value [0, 0, 0, 4] = 4"
    by (simp_all add: be_value_def)
  have o: "drop_bit 8 (513 :: int) AND 0xFFFFFF = 2" "(513 :: int) AND 0xFF = 1"
    by (simp_all add: drop_bit_eq_div and_int.rec [of 513] and_int.rec [of 256]
        and_int.rec [of 128] and_int.rec [of 64] and_int.rec [of 32] and_int.rec [of 16]
        and_int.rec [of 8] and_int.rec [of 4] and_int.rec [of 2] and_int.rec [of 1])
  show ?thesis
    unfolding read_chunk_raw_def Let_def
    by (simp add: scheme_region_bytes(1) scheme_region_slices unpack_u32_def v o bind_err_Inr)
qed

lemma read_scheme_region:
  "read_chunk_nbt (one_file (scheme_region c)) gunzip inflate
      \<lparr> rf_path = (0, 0), rf_locations = take 4096 (scheme_region c) \<rparr> 0 0
    = (if c = 1 then bind_err (gunzip [1, 2, 3]) (\<lambda>raw. Inr (Some raw))
       else if c = 2 then bind_err (inflate [1, 2, 3]) (\<lambda>raw. Inr (Some raw))
       else Inl (RuntimeError ''unknown chunk compression type''))"
proof -
  have l: "4096 \<le> length (scheme_region c)" by (simp add: scheme_region_bytes)
  have p: "slot_pos 0 0 = 0" by (simp add: slot_pos_def)
  have off: "push_bit 16 (uint (scheme_region c ! slot_pos 0 0))
               OR push_bit 8 (uint (scheme_region c ! (slot_pos 0 0 + 1)))
               OR uint (scheme_region c ! (slot_pos 0 0 + 2)) = 2"
    unfolding p by (simp add: scheme_region_def)
  have f: "one_file (scheme_region c) (0, 0) = Some (scheme_region c)"
    by (simp add: one_file_def)
  show ?thesis
    unfolding read_chunk_nbt_offset [OF l]
    by (simp only: Let_def off f) 
      (simp add: scheme_region_chunk unpack_u32_def be_value_def py_get_def bind_err_Inr)
qed

text \<open>
C3 (the code at the failing input).  The region file \<open>scheme_region 3\<close> has a complete
  header, slot 0 at sector 2, and there the length 4, the scheme byte 3 and the payload
  \<open>[1, 2, 3]\<close>.  \<open>RegionFile.read_chunk_nbt\<close> of \<open>world_tools.py\<close> raises
  \<open>RuntimeError("unknown chunk compression type 3")\<close>; the sibling reader
  \<open>_read_chunk_raw\<close> returns the payload as it is.
\<close>

theorem C3_scheme3_rejected:
  "RegionFile_init (one_file (scheme_region 3)) (0, 0)
     = Inr \<lparr> rf_path = (0, 0), rf_locations = take 4096 (scheme_region 3) \<rparr>
   \<and> read_chunk_nbt (one_file (scheme_region 3)) stored stored
        \<lparr> rf_path = (0, 0), rf_locations = take 4096 (scheme_region 3) \<rparr> 0 0
       = Inl (RuntimeError ''unknown chunk compression type'')
   \<and> read_chunk_raw stored stored (scheme_region 3) 0 0 = Inr (Some [1, 2, 3])"
proof -
  have "RegionFile_init (one_file (scheme_region 3)) (0, 0)
     = Inr \<lparr> rf_path = (0, 0), rf_locations = take 4096 (scheme_region 3) \<rparr>"
    using RegionFile_init_ok [of "one_file (scheme_region 3)" "(0, 0)" "scheme_region 3"]
    by (simp add: one_file_def scheme_region_bytes)
  moreover have "read_chunk_raw stored stored (scheme_region 3) 0 0 = Inr (Some [1, 2, 3])"
    by (simp add: read_raw_scheme_region)
  ultimately show ?thesis by (simp add: read_scheme_region)
qed

lemma cache_ok_init: "cache_ok files gunzip inflate parse WorldReader_init"
  by (simp add: cache_ok_def WorldReader_init_def)

lemma get_region_ok:
  assumes "cache_ok files gunzip inflate parse st"
  shows "fst (get_region files st rx rz)
           = (if files (rx, rz) = None then Inr None
              else bind_err (RegionFile_init files (rx, rz)) (\<lambda>rf. Inr (Some rf)))
       \<and> cache_ok files gunzip inflate parse (snd (get_region files st rx rz))"
proof (cases "region_cache st (rx, rz)")
  case None
  show ?thesis
  proof (cases "files (rx, rz)")
    case N: None
    then show ?thesis using None assms
      by (auto simp: get_region_def Let_def cache_ok_def region_entry_ok_def)
  next
    case (Some contents)
    then show ?thesis using None assms
      by (cases "RegionFile_init files (rx, rz)")
        (auto simp: get_region_def Let_def cache_ok_def region_entry_ok_def bind_err_def)
  qed
next
  case (Some cached)
  then have "region_entry_ok files (rx, rz) cached"
    using assms by (simp add: cache_ok_def)
  then show ?thesis using Some assms
    by (cases cached) (auto simp: get_region_def Let_def region_entry_ok_def bind_err_def)
qed

lemma get_chunk_ok:
  assumes "cache_ok files gunzip inflate parse st"
  shows "fst (get_chunk files gunzip inflate parse st cx cz)
           = load_chunk files gunzip inflate parse (cx, cz)
       \<and> cache_ok files gunzip inflate parse (snd (get_chunk files gunzip inflate parse st cx cz))"
proof (cases "chunk_cache st (cx, cz)")
  case (Some cached)
  then show ?thesis using assms by (simp add: get_chunk_def Let_def cache_ok_def)
next
  case None
  obtain r st1 where g: "get_region files st (cx div 32) (cz div 32) = (r, st1)"
    by (cases "get_region files st (cx div 32) (cz div 32)")
  have r: "r = (if files (cx div 32, cz div 32) = None then Inr None
              else bind_err (RegionFile_init files (cx div 32, cz div 32)) (\<lambda>rf. Inr (Some rf)))"
    and ok1: "cache_ok files gunzip inflate parse st1"
    using get_region_ok [OF assms, of "cx div 32" "cz div 32"] g by simp_all
  have upd: "cache_ok files gunzip inflate parse
               (st1\<lparr> chunk_cache := (chunk_cache st1)((cx, cz) \<mapsto> v) \<rparr>)"
    if "load_chunk files gunzip inflate parse (cx, cz) = Inr v" for v
    using ok1 that by (auto simp: cache_ok_def)
  show ?thesis
  proof (cases "files (cx div 32, cz div 32)")
    case N: None
    then have l: "load_chunk files gunzip inflate parse (cx, cz) = Inr None"
      by (simp add: load_chunk_def)
    show ?thesis using None g r N l upd [OF l]
      by (simp add: get_chunk_def Let_def)
  next
    case S: (Some contents)
    show ?thesis
    proof (cases "RegionFile_init files (cx div 32, cz div 32)")
      case (Inl e)
      then show ?thesis using None g r S ok1
        by (simp add: get_chunk_def Let_def load_chunk_def bind_err_def)
    next
      case (Inr rf)
      show ?thesis
      proof (cases "read_chunk_nbt files gunzip inflate rf cx cz")
        case E: (Inl e)
        then show ?thesis using None g r S Inr ok1
          by (simp add: get_chunk_def Let_def load_chunk_def bind_err_def)
      next
        case R: (Inr raw)
        show ?thesis
        proof (cases raw)
          case RN: None
          then have l: "load_chunk files gunzip inflate parse (cx, cz) = Inr None"
            using S Inr R by (simp add: load_chunk_def bind_err_def)
          show ?thesis using None g r S Inr R RN l upd [OF l]
            by (simp add: get_chunk_def Let_def bind_err_def)
        next
          case RS: (Some b)
          show ?thesis
          proof (cases "parse b")
            case PE: (Inl e)
            then show ?thesis using None g r S Inr R RS ok1
              by (simp add: get_chunk_def Let_def load_chunk_def bind_err_def)
          next
            case PR: (Inr chunk)
            then have l: "load_chunk files gunzip inflate parse (cx, cz) = Inr (Some chunk)"
              using S Inr R RS by (simp add: load_chunk_def bind_err_def)
            show ?thesis using None g r S Inr R RS PR l upd [OF l]
              by (simp add: get_chunk_def Let_def bind_err_def)
          qed
        qed
      qed
    qed
  qed
qed

lemma WorldReader_block_name_load:
  assumes "cache_ok files gunzip inflate parse st"
  shows "fst (WorldReader_block_name files gunzip inflate parse st x y z)
           = (case load_chunk files gunzip inflate parse (x div 16, z div 16) of
                Inl e \<Rightarrow> Inl e
              | Inr None \<Rightarrow> Inr ''minecraft:air''
              | Inr (Some chunk) \<Rightarrow> Chunk_block_name chunk x y z)
       \<and> cache_ok files gunzip inflate parse
            (snd (WorldReader_block_name files gunzip inflate parse st x y z))"
proof -
  obtain r st1 where g: "get_chunk files gunzip inflate parse st (x div 16) (z div 16) = (r, st1)"
    by (cases "get_chunk files gunzip inflate parse st (x div 16) (z div 16)")
  then have "r = load_chunk files gunzip inflate parse (x div 16, z div 16)"
    and "cache_ok files gunzip inflate parse st1"
    using get_chunk_ok [OF assms, of "x div 16" "z div 16"] by simp_all
  then show ?thesis using g
    by (auto simp: WorldReader_block_name_def split: sum.splits option.splits)
qed


text \<open>
C10 (as stated, refuted).  The claim says \<open>block_name\<close> returns \<open>minecraft:air\<close> and never
  raises whenever the chunk slot is absent.  In a region file of 5000 zero bytes the slot of
  chunk (0, 0) has offset zero, yet the constructor of \<open>RegionFile\<close> raises
  \<open>RuntimeError("short region header")\<close> and \<open>block_name(0, 0, 0)\<close> of a new reader lets it
  through.
\<close>

theorem C10_short_header_counterexample:
  "one_file headless_region (0, 0) = Some headless_region
   \<and> length headless_region = 5000
   \<and> headless_region ! slot_pos 0 0 = 0
   \<and> headless_region ! (slot_pos 0 0 + 1) = 0
   \<and> headless_region ! (slot_pos 0 0 + 2) = 0
   \<and> fst (WorldReader_block_name (one_file headless_region) stored stored (demo_parse 0)
          WorldReader_init 0 0 0) = Inl (RuntimeError ''short region header'')
   \<and> fst (WorldReader_block_name (one_file headless_region) stored stored (demo_parse 0)
          WorldReader_init 0 0 0) \<noteq> Inr ''minecraft:air''"
proof -
  let ?files = "one_file headless_region"
  have s: "?files (0, 0) = Some headless_region" by (simp add: one_file_def)
  have l: "length headless_region = 5000" by (simp add: headless_region_def)
  have z: "headless_region ! slot_pos 0 0 = 0" "headless_region ! (slot_pos 0 0 + 1) = 0"
    "headless_region ! (slot_pos 0 0 + 2) = 0"
    by (simp_all add: slot_pos_def headless_region_def)
  have i: "RegionFile_init ?files (0, 0) = Inl (RuntimeError ''short region header'')"
    using RegionFile_init_short [of ?files "(0, 0)" headless_region] s l by simp
  have "load_chunk ?files stored stored (demo_parse 0) (0, 0)
          = Inl (RuntimeError ''short region header'')"
    by (simp add: load_chunk_def s i bind_err_def)
  then have "fst (WorldReader_block_name ?files stored stored (demo_parse 0) WorldReader_init 0 0 0)
          = Inl (RuntimeError ''short region header'')"
    using WorldReader_block_name_load [OF cache_ok_init [of ?files stored stored "demo_parse 0"],
        of 0 0 0]
    by simp
  then show ?thesis using s l z by simp
qed

text \<open>
C10 (amended).  Let the caches of a \<open>WorldReader\<close> hold only what the files give
  (\<open>cache_ok\<close>: true of a new reader and kept by every call).  Then \<open>block_name(x, y, z)\<close>
  returns \<open>minecraft:air\<close>, without raising, when the region file of the coordinate does not
  exist; when the file has its two header sectors (8192 bytes) and the chunk's slot has
  offset zero; when the chunk loads and has no section for \<open>y >> 4\<close>; and when the chunk loads
  and the local coordinates derived from its own \<open>cx, cz\<close> fall outside \<open>0..15\<close>.  When the
  region file exists and is shorter than 8192 bytes, \<open>block_name\<close> raises
  \<open>RuntimeError("short region header")\<close>, whatever the slot holds.
\<close>

theorem C10_block_name_defaults:
  assumes "cache_ok files gunzip inflate parse st"
  shows
    "(files (x div 16 div 32, z div 16 div 32) = None
        \<longrightarrow> fst (WorldReader_block_name files gunzip inflate parse st x y z)
              = Inr ''minecraft:air'')
   \<and> (\<forall>contents.
         files (x div 16 div 32, z div 16 div 32) = Some contents
         \<and> 8192 \<le> length contents
         \<and> contents ! slot_pos (x div 16) (z div 16) = 0
         \<and> contents ! (slot_pos (x div 16) (z div 16) + 1) = 0
         \<and> contents ! (slot_pos (x div 16) (z div 16) + 2) = 0
        \<longrightarrow> fst (WorldReader_block_name files gunzip inflate parse st x y z)
              = Inr ''minecraft:air'')
   \<and> (\<forall>chunk.
         load_chunk files gunzip inflate parse (x div 16, z div 16) = Inr (Some chunk)
         \<and> chunk_sections chunk (drop_bit 4 y) = None
        \<longrightarrow> fst (WorldReader_block_name files gunzip inflate parse st x y z)
              = Inr ''minecraft:air'')
   \<and> (\<forall>chunk.
         load_chunk files gunzip inflate parse (x div 16, z div 16) = Inr (Some chunk)
         \<and> \<not> (0 \<le> x - push_bit 4 (chunk_cx chunk) \<and> x - push_bit 4 (chunk_cx chunk) \<le> 15
                \<and> 0 \<le> z - push_bit 4 (chunk_cz chunk) \<and> z - push_bit 4 (chunk_cz chunk) \<le> 15)
        \<longrightarrow> fst (WorldReader_block_name files gunzip inflate parse st x y z)
              = Inr ''minecraft:air'')
   \<and> (\<forall>contents.
         files (x div 16 div 32, z div 16 div 32) = Some contents
         \<and> length contents < 8192
        \<longrightarrow> fst (WorldReader_block_name files gunzip inflate parse st x y z)
              = Inl (RuntimeError ''short region header''))
   \<and> cache_ok files gunzip inflate parse
        (snd (WorldReader_block_name files gunzip inflate parse st x y z))"
proof -
  let ?key = "(x div 16, z div 16)"
  let ?res = "fst (WorldReader_block_name files gunzip inflate parse st x y z)"
  note main = WorldReader_block_name_load [OF assms, of x y z]
  have a: "?res = Inr ''minecraft:air''"
    if "files (x div 16 div 32, z div 16 div 32) = None"
    using main that by (simp add: load_chunk_def)
  have b: "?res = Inr ''minecraft:air''"
    if f: "files (x div 16 div 32, z div 16 div 32) = Some contents"
      and l: "8192 \<le> length contents"
      and z: "contents ! slot_pos (x div 16) (z div 16) = 0"
        "contents ! (slot_pos (x div 16) (z div 16) + 1) = 0"
        "contents ! (slot_pos (x div 16) (z div 16) + 2) = 0"
    for contents
  proof -
    have l4: "4096 \<le> length contents" using l by simp
    have "load_chunk files gunzip inflate parse ?key = Inr None"
      using f RegionFile_init_ok [of files "(x div 16 div 32, z div 16 div 32)" contents] l
        read_chunk_nbt_absent [OF l4 z, of files gunzip inflate]
      by (simp add: load_chunk_def bind_err_Inr)
    then show ?thesis using main by simp
  qed
  have c: "?res = Inr ''minecraft:air''"
    if "load_chunk files gunzip inflate parse ?key = Inr (Some chunk)"
      and "chunk_sections chunk (drop_bit 4 y) = None" for chunk
    using main that by (simp add: Chunk_block_name_def)
  have d: "?res = Inr ''minecraft:air''"
    if "load_chunk files gunzip inflate parse ?key = Inr (Some chunk)"
      and "\<not> (0 \<le> x - push_bit 4 (chunk_cx chunk) \<and> x - push_bit 4 (chunk_cx chunk) \<le> 15
                \<and> 0 \<le> z - push_bit 4 (chunk_cz chunk) \<and> z - push_bit 4 (chunk_cz chunk) \<le> 15)"
    for chunk
    using main that
    by (cases "chunk_sections chunk (drop_bit 4 y)")
      (auto simp: Chunk_block_name_def Let_def simp del: push_bit_eq_mult)
  have e: "?res = Inl (RuntimeError ''short region header'')"
    if f: "files (x div 16 div 32, z div 16 div 32) = Some contents"
      and l: "length contents < 8192"
    for contents
  proof -
    have "load_chunk files gunzip inflate parse ?key = Inl (RuntimeError ''short region header'')"
      using f RegionFile_init_short [of files "(x div 16 div 32, z div 16 div 32)" contents] l
      by (simp add: load_chunk_def bind_err_def)
    then show ?thesis using main by simp
  qed
  show ?thesis using a b c d e main by blast
qed

lemma load_demo_chunk:
  "load_chunk (one_file (scheme_region 1)) stored stored (demo_parse k) (0, 0)
     = Inr (Some (demo_chunk k))"
proof -
  have "RegionFile_init (one_file (scheme_region 1)) (0, 0)
     = Inr \<lparr> rf_path = (0, 0), rf_locations = take 4096 (scheme_region 1) \<rparr>"
    using RegionFile_init_ok [of "one_file (scheme_region 1)" "(0, 0)" "scheme_region 1"]
    by (simp add: one_file_def scheme_region_bytes)
  moreover have "one_file (scheme_region 1) (0, 0) = Some (scheme_region 1)"
    by (simp add: one_file_def)
  ultimately show ?thesis
    by (simp add: load_chunk_def Let_def bind_err_Inr read_scheme_region stored_def
        demo_parse_def)
qed

text \<open>
A new reader over one region file: a coordinate in a missing region, one in an absent
  slot, one in a missing section, and one outside the bounds of the chunk that was stored;
  and a new reader over a region file of 100 bytes.
\<close>

theorem C10_block_name_defaults_witness:
  "fst (WorldReader_block_name (one_file (scheme_region 1)) stored stored (demo_parse 0)
          WorldReader_init 1000 0 0) = Inr ''minecraft:air''
   \<and> fst (WorldReader_block_name (one_file (scheme_region 1)) stored stored (demo_parse 0)
          WorldReader_init 16 0 0) = Inr ''minecraft:air''
   \<and> fst (WorldReader_block_name (one_file (scheme_region 1)) stored stored (demo_parse 0)
          WorldReader_init 0 100 0) = Inr ''minecraft:air''
   \<and> fst (WorldReader_block_name (one_file (scheme_region 1)) stored stored (demo_parse 5)
          WorldReader_init 0 0 0) = Inr ''minecraft:air''
   \<and> fst (WorldReader_block_name (one_file short_region) stored stored (demo_parse 0)
          WorldReader_init 0 0 0) = Inl (RuntimeError ''short region header'')"
proof -
  let ?files = "one_file (scheme_region 1)"
  note ok = cache_ok_init [of ?files stored stored]
  note ok_short = cache_ok_init [of "one_file short_region" stored stored]
  have s4: "slot_pos 1 0 = 4" by (simp add: slot_pos_def)
  have z: "scheme_region 1 ! 4 = 0" "scheme_region 1 ! 5 = 0" "scheme_region 1 ! 6 = 0"
    by (simp_all add: scheme_region_def nth_append)
  have "fst (WorldReader_block_name ?files stored stored (demo_parse 0) WorldReader_init 1000 0 0)
          = Inr ''minecraft:air''"
    using C10_block_name_defaults [OF ok, of 1000 0 "demo_parse 0" 0]
    by (simp add: one_file_def)
  moreover have "fst (WorldReader_block_name ?files stored stored (demo_parse 0) WorldReader_init 16 0 0)
          = Inr ''minecraft:air''"
    using C10_block_name_defaults [OF ok, of 16 0 "demo_parse 0" 0]
    by (simp add: one_file_def s4 z scheme_region_bytes(1))
  moreover have "fst (WorldReader_block_name ?files stored stored (demo_parse 0) WorldReader_init 0 100 0)
          = Inr ''minecraft:air''"
    using C10_block_name_defaults [OF ok, of 0 0 "demo_parse 0" 100]
    by (simp add: load_demo_chunk demo_chunk_def drop_bit_eq_div)
  moreover have "fst (WorldReader_block_name ?files stored stored (demo_parse 5) WorldReader_init 0 0 0)
          = Inr ''minecraft:air''"
    using C10_block_name_defaults [OF ok, of 0 0 "demo_parse 5" 0]
    by (simp add: load_demo_chunk demo_chunk_def)
  moreover have "fst (WorldReader_block_name (one_file short_region) stored stored (demo_parse 0)
          WorldReader_init 0 0 0) = Inl (RuntimeError ''short region header'')"
    using C10_block_name_defaults [OF ok_short, of 0 0 "demo_parse 0" 0]
    by (simp add: one_file_def short_region_def)
  ultimately show ?thesis by simp
qed

section \<open>Verification: block-state grammar\<close>

lemma set_strip: "set (strip s) \<subseteq> set s"
proof -
  have "set (dropWhile is_space (rev (dropWhile is_space s))) \<subseteq> set (rev (dropWhile is_space s))"
    by (rule set_dropWhileD [THEN subsetI])
  also have "\<dots> \<subseteq> set s" using set_dropWhileD by fastforce
  finally show ?thesis by (simp add: strip_def)
qed

lemma strip_id:
  assumes "s \<noteq> []" "\<not> is_space (hd s)" "\<not> is_space (last s)"
  shows "strip s = s"
proof -
  have a: "dropWhile is_space s = s" using assms(1,2) by (simp add: dropWhile_eq_self_iff)
  have "hd (rev s) = last s" using assms(1) by (simp add: hd_rev)
  then have "dropWhile is_space (rev s) = rev s"
    using assms(3) by (simp add: dropWhile_eq_self_iff)
  then show ?thesis by (simp add: strip_def a)
qed

lemma strip_ends:
  assumes "strip s \<noteq> []"
  shows "\<not> is_space (hd (strip s))" "\<not> is_space (last (strip s))"
proof -
  let ?a = "dropWhile is_space s"
  let ?b = "dropWhile is_space (rev ?a)"
  have b: "?b \<noteq> []" using assms by (simp add: strip_def)
  then have "\<not> is_space (hd ?b)" by (rule hd_dropWhile)
  then show "\<not> is_space (last (strip s))" using b by (simp add: strip_def last_rev)
  have a: "?a \<noteq> []"
  proof
    assume e: "?a = []"
    have "dropWhile is_space (rev []) = ([] :: string)" by simp
    then have "?b = []" by (simp only: e)
    then show False using b by (simp only:)
  qed
  then have ha: "\<not> is_space (hd ?a)" by (rule hd_dropWhile)
  obtain pre where pre: "rev ?a = pre @ ?b"
    by (metis takeWhile_dropWhile_id)
  then have "?a = rev ?b @ rev pre" by (metis rev_append rev_rev_ident)
  then have "hd ?a = hd (rev ?b)" using b by (metis hd_append2 rev_is_Nil_conv)
  then show "\<not> is_space (hd (strip s))" using ha by (simp add: strip_def)
qed

lemma strip_strip: "strip (strip s) = strip s"
proof (cases "strip s = []")
  case True
  have "strip [] = []" by (simp add: strip_def)
  then show ?thesis by (simp only: True)
next
  case False
  then show ?thesis using strip_ends [OF False] by (intro strip_id)
qed

lemma split_on_nonempty: "split_on c s \<noteq> []"
  by (induction s) (auto split: list.splits)

lemma split_on_no_sep: "seg \<in> set (split_on c s) \<Longrightarrow> c \<notin> set seg"
proof (induction s arbitrary: seg)
  case Nil
  then show ?case by simp
next
  case (Cons x xs)
  show ?case
  proof (cases "x = c")
    case True
    then show ?thesis using Cons by auto
  next
    case False
    obtain h t where ht: "split_on c xs = h # t"
      using split_on_nonempty [of c xs] by (cases "split_on c xs") auto
    then have "seg = x # h \<or> seg \<in> set t" using Cons.prems False by auto
    then show ?thesis using Cons.IH ht False by auto
  qed
qed

lemma split_on_subset: "seg \<in> set (split_on c s) \<Longrightarrow> set seg \<subseteq> set s"
proof (induction s arbitrary: seg)
  case Nil
  then show ?case by simp
next
  case (Cons x xs)
  show ?case
  proof (cases "x = c")
    case True
    then show ?thesis using Cons by auto
  next
    case False
    obtain h t where ht: "split_on c xs = h # t"
      using split_on_nonempty [of c xs] by (cases "split_on c xs") auto
    then have "seg = x # h \<or> seg \<in> set t" using Cons.prems False by auto
    then show ?thesis using Cons.IH ht False by fastforce
  qed
qed

lemma split_on_no_sep_id: "c \<notin> set s \<Longrightarrow> split_on c s = [s]"
  by (induction s) auto

lemma split_on_append:
  assumes "c \<notin> set a"
  shows "split_on c (a @ c # rest) = a # split_on c rest"
  using assms by (induction a) auto

lemma split_on_join:
  assumes "segs \<noteq> []" "\<forall>seg\<in>set segs. c \<notin> set seg"
  shows "split_on c (join [c] segs) = segs"
  using assms
proof (induction "[c]" segs rule: join.induct)
  case 1
  then show ?case by simp
next
  case (2 x)
  then show ?case by (simp add: split_on_no_sep_id)
next
  case (3 x y ys)
  then show ?case by (simp add: split_on_append)
qed

lemma name_char_not_space: "name_char c \<Longrightarrow> \<not> is_space c"
  by (auto simp: name_char_def is_space_def less_eq_char_def Let_def)

lemma name_char_plain:
  "name_char c \<Longrightarrow> c \<noteq> CHR '':'' \<and> c \<noteq> CHR ''['' \<and> c \<noteq> CHR '']'' \<and> c \<noteq> CHR 0x0A
     \<and> c \<noteq> CHR '','' \<and> c \<noteq> CHR ''=''"
  by (auto simp: name_char_def less_eq_char_def)

lemma takeWhile_run:
  assumes "\<forall>c\<in>set xs. P c" "\<not> P y"
  shows "takeWhile P (xs @ y # rest) = xs" "dropWhile P (xs @ y # rest) = y # rest"
  using assms by (simp_all add: takeWhile_append2 dropWhile_append2)

lemma takeWhile_all:
  assumes "\<forall>c\<in>set xs. P c"
  shows "takeWhile P xs = xs" "dropWhile P xs = []"
  using assms by (simp_all add: takeWhile_eq_all_conv)

lemma match_plain:
  assumes "name_ok n"
  shows "STATE_RE_match n = Some (n, None)"
proof -
  obtain ns ms where n: "n = ns @ '':'' @ ms" "ns \<noteq> []" "ms \<noteq> []"
    "\<forall>c\<in>set ns. name_char c" "\<forall>c\<in>set ms. name_char c"
    using assms unfolding name_ok_def by blast
  have c: "\<not> name_char CHR '':''" using name_char_plain by blast
  have 1: "takeWhile name_char n = ns" "dropWhile name_char n = CHR '':'' # ms"
    using takeWhile_run [OF n(4) c, of ms] n(1) by simp_all
  show ?thesis
    unfolding STATE_RE_match_def 1 Let_def
    using n(2,3) by (simp add: takeWhile_all [OF n(5)] n(1))
qed

lemma props_group_closed:
  assumes "CHR 0x0A \<notin> set body"
  shows "props_group (body @ '']'') = Some body"
  using assms by (simp add: props_group_def)

lemma match_bracket:
  assumes "name_ok n" "CHR 0x0A \<notin> set body"
  shows "STATE_RE_match (n @ ''['' @ body @ '']'') = Some (n, Some body)"
proof -
  obtain ns ms where n: "n = ns @ '':'' @ ms" "ns \<noteq> []" "ms \<noteq> []"
    "\<forall>c\<in>set ns. name_char c" "\<forall>c\<in>set ms. name_char c"
    using assms(1) unfolding name_ok_def by blast
  have c: "\<not> name_char CHR '':''" and b: "\<not> name_char CHR ''[''"
    using name_char_plain by blast+
  let ?s = "n @ ''['' @ body @ '']''"
  have s: "?s = ns @ CHR '':'' # (ms @ CHR ''['' # (body @ '']''))" by (simp add: n(1))
  have 1: "takeWhile name_char ?s = ns"
    "dropWhile name_char ?s = CHR '':'' # (ms @ CHR ''['' # (body @ '']''))"
    unfolding s using takeWhile_run [OF n(4) c] by simp_all
  have 2: "takeWhile name_char (ms @ CHR ''['' # (body @ '']'')) = ms"
    "dropWhile name_char (ms @ CHR ''['' # (body @ '']'')) = CHR ''['' # (body @ '']'')"
    using takeWhile_run [OF n(5) b] by simp_all
  show ?thesis
    unfolding STATE_RE_match_def 1 Let_def
    using n(2,3) by (simp add: 2 props_group_closed [OF assms(2)] n(1))
qed

lemma props_group_no_newline:
  "props_group r = Some raw \<Longrightarrow> CHR 0x0A \<notin> set raw"
  by (auto simp: props_group_def split: if_splits)

lemma match_name_ok:
  assumes "STATE_RE_match s = Some (n, pr)"
  shows "name_ok n" "pr = Some raw \<Longrightarrow> CHR 0x0A \<notin> set raw"
proof -
  let ?ns = "takeWhile name_char s"
  let ?r1 = "dropWhile name_char s"
  from assms obtain r2 where r1: "?r1 = CHR '':'' # r2" and ns: "?ns \<noteq> []"
    by (auto simp: STATE_RE_match_def Let_def split: if_splits list.splits)
  let ?ms = "takeWhile name_char r2"
  from assms r1 ns have ms: "?ms \<noteq> []" and n: "n = ?ns @ '':'' @ ?ms"
    by (auto simp: STATE_RE_match_def Let_def split: if_splits list.splits option.splits)
  have "\<forall>c\<in>set ?ns. name_char c" "\<forall>c\<in>set ?ms. name_char c"
    by (auto dest: set_takeWhileD)
  then show "name_ok n" using ns ms n unfolding name_ok_def by blast
  show "CHR 0x0A \<notin> set raw" if "pr = Some raw"
    using assms r1 ns that
    by (auto simp: STATE_RE_match_def Let_def dest: props_group_no_newline
        split: if_splits list.splits option.splits)
qed

lemma key_part:
  assumes "CHR ''='' \<notin> set k"
  shows "takeWhile (\<lambda>c. c \<noteq> CHR ''='') (k @ ''='' @ v) = k"
    "tl (dropWhile (\<lambda>c. c \<noteq> CHR ''='') (k @ ''='' @ v)) = v"
proof -
  have a: "\<forall>c\<in>set k. c \<noteq> CHR ''=''" using assms by auto
  have b: "\<not> (CHR ''='' \<noteq> CHR ''='')" by simp
  show "takeWhile (\<lambda>c. c \<noteq> CHR ''='') (k @ ''='' @ v) = k"
    "tl (dropWhile (\<lambda>c. c \<noteq> CHR ''='') (k @ ''='' @ v)) = v"
    using takeWhile_run [of k "\<lambda>c. c \<noteq> CHR ''=''" "CHR ''=''" v, OF a b] by simp_all
qed

lemma segment_strip:
  assumes "key_ok k" "val_ok v"
  shows "strip (k @ ''='' @ v) = k @ ''='' @ v"
proof -
  have k: "k \<noteq> []" "strip k = k" and v: "v \<noteq> []" "strip v = v"
    using assms by (simp_all add: key_ok_def val_ok_def)
  have "\<not> is_space (hd k)" using strip_ends(1) [of k] k by simp
  moreover have "\<not> is_space (last v)" using strip_ends(2) [of v] v by simp
  ultimately show ?thesis using k(1) v(1) by (intro strip_id) simp_all
qed

lemma parse_segments_step:
  assumes ok: "key_ok k" "val_ok v" and fresh: "k \<notin> set (map fst acc)"
  shows "parse_segments ((k @ ''='' @ v) # rest) acc = parse_segments rest (acc @ [(k, v)])"
proof -
  have s: "strip (k @ ''='' @ v) = k @ ''='' @ v" by (rule segment_strip [OF ok])
  have e: "CHR ''='' \<notin> set k" using ok(1) by (simp add: key_ok_def)
  have kk: "strip k = k" "strip v = v"
    using ok by (simp_all add: key_ok_def val_ok_def)
  have ne: "k \<noteq> []" "v \<noteq> []" using ok by (simp_all add: key_ok_def val_ok_def)
  have "parse_segments ((k @ ''='' @ v) # rest) acc =
      (if k @ ''='' @ v = [] then parse_segments rest acc
       else if CHR ''='' \<notin> set (k @ ''='' @ v)
         then Inl (StructgenError ''invalid property segment'')
       else if k = [] \<or> v = [] then Inl (StructgenError ''invalid property segment'')
       else if k \<in> set (map fst acc) then Inl (StructgenError ''duplicate property'')
       else parse_segments rest (acc @ [(k, v)]))"
    by (simp only: parse_segments.simps Let_def s key_part [OF e] kk)
  then show ?thesis using ne fresh by simp
qed

lemma parse_segments_canonical:
  assumes "props_ok (acc @ kvs)"
  shows "parse_segments (map (\<lambda>(k, v). k @ ''='' @ v) kvs) acc = Inr (acc @ kvs)"
  using assms
proof (induction kvs arbitrary: acc)
  case Nil
  then show ?case by simp
next
  case (Cons kv kvs)
  obtain k v where kv: "kv = (k, v)" by (cases kv)
  have ok: "key_ok k" "val_ok v" and fresh: "k \<notin> set (map fst acc)"
    using Cons.prems by (auto simp: props_ok_def kv)
  have next_ok: "props_ok ((acc @ [(k, v)]) @ kvs)" using Cons.prems by (simp add: kv)
  have "map (\<lambda>(k, v). k @ ''='' @ v) (kv # kvs)
          = (k @ ''='' @ v) # map (\<lambda>(k, v). k @ ''='' @ v) kvs"
    by (simp add: kv)
  then have "parse_segments (map (\<lambda>(k, v). k @ ''='' @ v) (kv # kvs)) acc
          = parse_segments (map (\<lambda>(k, v). k @ ''='' @ v) kvs) (acc @ [(k, v)])"
    by (simp only: parse_segments_step [OF ok fresh])
  then show ?case using Cons.IH [OF next_ok] by (simp add: kv)
qed

lemma parse_segments_ok:
  assumes "parse_segments segs acc = Inr p" "props_ok acc"
    and "\<forall>seg\<in>set segs. CHR '','' \<notin> set seg \<and> CHR 0x0A \<notin> set seg"
  shows "props_ok p"
  using assms
proof (induction segs arbitrary: acc)
  case Nil
  then show ?case by simp
next
  case (Cons seg segs)
  let ?segment = "strip seg"
  let ?k = "takeWhile (\<lambda>c. c \<noteq> CHR ''='') ?segment"
  let ?v = "tl (dropWhile (\<lambda>c. c \<noteq> CHR ''='') ?segment)"
  have rest: "\<forall>seg\<in>set segs. CHR '','' \<notin> set seg \<and> CHR 0x0A \<notin> set seg"
    using Cons.prems(3) by simp
  show ?case
  proof (cases "?segment = []")
    case True
    then show ?thesis using Cons.prems(1,2) Cons.IH [OF _ _ rest] by (simp add: Let_def)
  next
    case False
    then have step: "CHR ''='' \<in> set ?segment" "strip ?k \<noteq> []" "strip ?v \<noteq> []"
      "strip ?k \<notin> set (map fst acc)"
      and rec: "parse_segments segs (acc @ [(strip ?k, strip ?v)]) = Inr p"
      using Cons.prems(1) by (auto simp: Let_def split: if_splits)
    have sub: "set ?segment \<subseteq> set seg" by (rule set_strip)
    have ksub: "set (strip ?k) \<subseteq> set ?k" by (rule set_strip)
    have k_in: "set ?k \<subseteq> set ?segment" by (auto dest: set_takeWhileD)
    have k_eq: "CHR ''='' \<notin> set ?k" by (auto dest: set_takeWhileD)
    have vsub: "set (strip ?v) \<subseteq> set ?v" by (rule set_strip)
    have "set ?v \<subseteq> set (dropWhile (\<lambda>c. c \<noteq> CHR ''='') ?segment)"
      by (metis list.set_sel(2) subsetI tl_Nil)
    then have v_in: "set ?v \<subseteq> set ?segment" using set_dropWhileD by fastforce
    have clean: "CHR '','' \<notin> set seg" "CHR 0x0A \<notin> set seg" using Cons.prems(3) by simp_all
    have "key_ok (strip ?k)"
      unfolding key_ok_def using step(2) strip_strip [of ?k] ksub k_in k_eq sub clean by blast
    moreover have "val_ok (strip ?v)"
      unfolding val_ok_def using step(3) strip_strip [of ?v] vsub v_in sub clean by blast
    ultimately have "props_ok (acc @ [(strip ?k, strip ?v)])"
      using Cons.prems(2) step(4) by (auto simp: props_ok_def)
    then show ?thesis using Cons.IH [OF rec _ rest] by simp
  qed
qed

lemma parse_ok:
  assumes "parse_block_state s = Inr (n, p)"
  shows "name_ok n" "props_ok p"
proof -
  from assms obtain pr where m: "STATE_RE_match (strip s) = Some (n, pr)"
    by (auto simp: parse_block_state_def bind_err_def split: option.splits if_splits sum.splits)
  show "name_ok n" using match_name_ok(1) [OF m] .
  show "props_ok p"
  proof (cases pr)
    case None
    then show ?thesis using assms m by (simp add: parse_block_state_def props_ok_def)
  next
    case (Some raw)
    show ?thesis
    proof (cases "raw = []")
      case True
      then show ?thesis using assms m Some by (simp add: parse_block_state_def props_ok_def)
    next
      case False
      then have ps: "parse_segments (split_on CHR '','' raw) [] = Inr p"
        using assms m Some
        by (auto simp: parse_block_state_def bind_err_def split: sum.splits)
      have nl: "CHR 0x0A \<notin> set raw" using match_name_ok(2) [OF m Some] .
      have "\<forall>seg\<in>set (split_on CHR '','' raw). CHR '','' \<notin> set seg \<and> CHR 0x0A \<notin> set seg"
        using split_on_no_sep split_on_subset nl by blast
      then show ?thesis using parse_segments_ok [OF ps] by (simp add: props_ok_def)
    qed
  qed
qed

lemma canonical_alt:
  "canonical_state n p =
     (if p = [] then n
      else n @ ''['' @ join '','' (map (\<lambda>(k, v). k @ ''='' @ v) (canon_props p)) @ '']'')"
  by (simp add: canonical_state_def canon_props_def comp_def)

lemma canon_props_keys: "map fst (canon_props p) = sort (map fst p)"
  by (simp add: canon_props_def comp_def)

lemma canon_props_Nil: "canon_props p = [] \<longleftrightarrow> p = []"
proof -
  have "length (canon_props p) = length p" by (simp add: canon_props_def)
  then show ?thesis by (metis length_0_conv)
qed

lemma dict_get_in:
  assumes "distinct (map fst p)" "(k, v) \<in> set p"
  shows "dict_get p k = v"
  using assms by (simp add: dict_get_def)

lemma map_of_tabulate:
  "map_of (map (\<lambda>k. (k, f k)) ks) k = (if k \<in> set ks then Some (f k) else None)"
  by (induction ks) auto

lemma dict_get_canon: "dict_get (canon_props p) k = dict_get p k"
proof (cases "k \<in> set (map fst p)")
  case True
  then show ?thesis by (simp add: dict_get_def canon_props_def map_of_tabulate)
next
  case False
  then have "map_of p k = None" by (simp add: map_of_eq_None_iff)
  then show ?thesis using False by (simp add: dict_get_def canon_props_def map_of_tabulate)
qed

lemma canon_canon: "canon_props (canon_props p) = canon_props p"
proof -
  have "sort (sort (map fst p)) = sort (map fst p)"
    by (rule sorted_sort_id) simp
  then show ?thesis
    unfolding canon_props_def [of "canon_props p"] canon_props_keys dict_get_canon
    by (simp add: canon_props_def)
qed

lemma canonical_canon: "canonical_state n (canon_props p) = canonical_state n p"
  unfolding canonical_alt canon_canon canon_props_Nil ..

lemma canon_props_ok:
  assumes "props_ok p"
  shows "props_ok (canon_props p)"
proof -
  have d: "distinct (map fst p)" using assms by (simp add: props_ok_def)
  have "key_ok k \<and> val_ok (dict_get p k)" if "k \<in> set (map fst p)" for k
  proof -
    from that obtain v where kv: "(k, v) \<in> set p" by auto
    then have "dict_get p k = v" using d by (rule dict_get_in [rotated])
    then show ?thesis using assms kv by (auto simp: props_ok_def)
  qed
  then have "\<forall>(k, v)\<in>set (canon_props p). key_ok k \<and> val_ok v"
    by (auto simp: canon_props_def)
  moreover have "distinct (map fst (canon_props p))"
    unfolding canon_props_keys using d by simp
  ultimately show ?thesis by (simp add: props_ok_def)
qed

lemma canon_props_cong:
  assumes "distinct (map fst p)" "distinct (map fst q)" "map_of p = map_of q"
  shows "canon_props p = canon_props q"
proof -
  have "set (map fst p) = set (map fst q)"
    using assms(3) by (metis dom_map_of_conv_image_fst set_map)
  then have "sort (map fst p) = sort (map fst q)"
    using assms(1,2) by (intro sorted_distinct_set_unique) simp_all
  moreover have "dict_get p k = dict_get q k" for k
    using assms(3) by (simp add: dict_get_def)
  ultimately show ?thesis by (simp add: canon_props_def)
qed

lemma join_set: "set (join sep xs) \<subseteq> set sep \<union> \<Union> (set ` set xs)"
  by (induction sep xs rule: join.induct) auto

lemma join_Nil: "join sep xs = [] \<Longrightarrow> xs = [] \<or> hd xs = []"
  by (induction sep xs rule: join.induct) auto

lemma segments_clean:
  assumes "props_ok q" "seg \<in> set (map (\<lambda>(k, v). k @ ''='' @ v) q)"
  shows "CHR '','' \<notin> set seg" "CHR 0x0A \<notin> set seg" "seg \<noteq> []"
proof -
  from assms(2) obtain k v where kv: "(k, v) \<in> set q" "seg = k @ ''='' @ v" by auto
  then have "key_ok k" "val_ok v" using assms(1) by (auto simp: props_ok_def)
  then show "CHR '','' \<notin> set seg" "CHR 0x0A \<notin> set seg" "seg \<noteq> []"
    using kv(2) by (simp_all add: key_ok_def val_ok_def)
qed

lemma name_ok_ends:
  assumes "name_ok n"
  shows "n \<noteq> []" "\<not> is_space (hd n)" "\<not> is_space (last n)"
proof -
  obtain ns ms where n: "n = ns @ '':'' @ ms" "ns \<noteq> []" "ms \<noteq> []"
    "\<forall>c\<in>set ns. name_char c" "\<forall>c\<in>set ms. name_char c"
    using assms unfolding name_ok_def by blast
  show "n \<noteq> []" using n by simp
  have "hd n = hd ns" using n by simp
  then show "\<not> is_space (hd n)" using n(2,4) name_char_not_space by (metis hd_in_set)
  have "last n = last ms" using n by simp
  then show "\<not> is_space (last n)" using n(3,5) name_char_not_space by (metis last_in_set)
qed

lemma parse_canonical:
  assumes n: "name_ok n" and p: "props_ok p"
  shows "parse_block_state (canonical_state n p) = Inr (n, canon_props p)"
proof (cases "p = []")
  case True
  have "strip n = n" using name_ok_ends [OF n] by (intro strip_id)
  then show ?thesis using True by (simp add: canonical_state_def parse_block_state_def
        match_plain [OF n] canon_props_def)
next
  case False
  define segs where "segs = map (\<lambda>(k, v). k @ ''='' @ v) (canon_props p)"
  define body where "body = join '','' segs"
  let ?s = "n @ ''['' @ body @ '']''"
  have q: "props_ok (canon_props p)" by (rule canon_props_ok [OF p])
  have segs: "segs \<noteq> []" using False by (simp add: segs_def canon_props_Nil)
  have c1: "CHR '','' \<notin> set seg" and c2: "CHR 0x0A \<notin> set seg" and c3: "seg \<noteq> []"
    if "seg \<in> set segs" for seg
    using segments_clean [OF q] that unfolding segs_def by blast+
  have clean: "\<forall>seg\<in>set segs. CHR '','' \<notin> set seg" using c1 by blast
  have nl: "CHR 0x0A \<notin> set body"
  proof
    assume "CHR 0x0A \<in> set body"
    then have "CHR 0x0A \<in> set '','' \<union> \<Union> (set ` set segs)"
      unfolding body_def using join_set by blast
    then obtain seg where "seg \<in> set segs" "CHR 0x0A \<in> set seg" by auto
    then show False using c2 by blast
  qed
  have body: "body \<noteq> []"
  proof
    assume "body = []"
    then have "hd segs = []" unfolding body_def using join_Nil segs by blast
    moreover have "hd segs \<in> set segs" using segs by simp
    ultimately show False using c3 by metis
  qed
  have st: "strip ?s = ?s"
  proof (rule strip_id)
    show "?s \<noteq> []" by simp
    show "\<not> is_space (hd ?s)" using name_ok_ends [OF n] by simp
    show "\<not> is_space (last ?s)" by (simp add: is_space_def)
  qed
  have split: "split_on CHR '','' body = segs"
    unfolding body_def using split_on_join [OF segs clean] by simp
  have ps: "parse_segments segs [] = Inr (canon_props p)"
    unfolding segs_def using parse_segments_canonical [of "[]" "canon_props p"] q by simp
  have "parse_block_state ?s = Inr (n, canon_props p)"
    unfolding parse_block_state_def st match_bracket [OF n nl]
    using body by (simp add: split ps bind_err_def)
  then show ?thesis using False by (simp add: canonical_alt body_def segs_def)
qed

text \<open>
C8.  Canonicalization is idempotent.  If \<open>parse_block_state s\<close> succeeds with the name \<open>n\<close> and
  the properties \<open>p\<close>, then parsing \<open>canonical_state n p\<close> succeeds with the same name and the
  same properties in sorted key order, and printing those again gives the same string; the
  printed keys are the sorted keys of \<open>p\<close>; an empty property map prints the bare name; and
  any other parsed input with the same name and the same property map, in whatever order,
  prints the same string.
\<close>

theorem C8_canonical_idempotent:
  assumes "parse_block_state s = Inr (n, p)"
  shows "parse_block_state (canonical_state n p) = Inr (n, canon_props p)
       \<and> canonical_state n (canon_props p) = canonical_state n p
       \<and> map fst (canon_props p) = sort (map fst p)
       \<and> (p = [] \<longrightarrow> canonical_state n p = n)
       \<and> (\<forall>s' p'. parse_block_state s' = Inr (n, p') \<and> map_of p' = map_of p
             \<longrightarrow> canonical_state n p' = canonical_state n p)"
proof -
  have ok: "name_ok n" "props_ok p" using parse_ok [OF assms] .
  have "canonical_state n p' = canonical_state n p"
    if "parse_block_state s' = Inr (n, p')" "map_of p' = map_of p" for s' p'
  proof -
    have "props_ok p'" using parse_ok(2) [OF that(1)] .
    then have "canon_props p' = canon_props p"
      using ok(2) that(2) by (intro canon_props_cong) (simp_all add: props_ok_def)
    moreover have "p' = [] \<longleftrightarrow> p = []" using that(2) by (metis map_of_eq_empty_iff)
    ultimately show ?thesis by (simp add: canonical_alt)
  qed
  moreover have "p = [] \<longrightarrow> canonical_state n p = n"
    by (simp add: canonical_state_def)
  ultimately show ?thesis
    using parse_canonical [OF ok] canonical_canon [of n p] canon_props_keys [of p]
    by blast
qed

lemma dict_update_map:
  assumes "distinct (map fst d)"
  shows "(if dict_contains d k then dict_set d k (f (dict_get d k)) else d)
           = map (\<lambda>(k2, v2). (k2, if k2 = k then f v2 else v2)) d"
proof (cases "dict_contains d k")
  case False
  then have "\<forall>kv\<in>set d. (case kv of (k2, v2) \<Rightarrow> (k2, if k2 = k then f v2 else v2)) = kv"
    by (force simp: dict_contains_def)
  then have "map (\<lambda>(k2, v2). (k2, if k2 = k then f v2 else v2)) d = d"
    by (simp add: map_idI)
  then show ?thesis using False by simp
next
  case True
  have "(case kv of (k2, v2) \<Rightarrow> if k2 = k then (k2, f (dict_get d k)) else (k2, v2))
          = (case kv of (k2, v2) \<Rightarrow> (k2, if k2 = k then f v2 else v2))"
    if "kv \<in> set d" for kv
  proof -
    obtain k2 v2 where kv: "kv = (k2, v2)" by (cases kv)
    show ?thesis
    proof (cases "k2 = k")
      case True
      then have "dict_get d k = v2" using dict_get_in [OF assms] that kv by simp
      then show ?thesis using True kv by simp
    next
      case False
      then show ?thesis using kv by simp
    qed
  qed
  then show ?thesis using True by (simp add: dict_set_def cong: map_cong)
qed

lemma keys_update_map:
  "map fst (map (\<lambda>(k2, v2). (k2, g k2 v2)) d) = map fst d"
  by (induction d) auto

lemma transform_state_props:
  assumes "parse_block_state s = Inr (n, p)"
  shows "transform_state s rot mirror = Inr (canonical_state n (transform_props rot mirror p))"
proof -
  have d0: "distinct (map fst p)" using parse_ok(2) [OF assms] by (simp add: props_ok_def)
  define p1 where "p1 = map (\<lambda>(k2, v2). (k2, if k2 = ''facing'' then transform_dir v2 rot mirror else v2)) p"
  define p2 where "p2 = map (\<lambda>(k2, v2). (k2, if k2 = ''horizontal_facing'' then transform_dir v2 rot mirror else v2)) p1"
  define p3 where "p3 = map (\<lambda>(k2, v2). (k2, if k2 = ''orientation'' then transform_orientation v2 rot mirror else v2)) p2"
  define p4 where "p4 = map (\<lambda>(k2, v2). (k2, if k2 = ''axis'' then transform_axis v2 rot else v2)) p3"
  have d1: "distinct (map fst p1)" unfolding p1_def keys_update_map using d0 .
  have d2: "distinct (map fst p2)" unfolding p2_def keys_update_map using d1 .
  have d3: "distinct (map fst p3)" unfolding p3_def keys_update_map using d2 .
  have s1: "(if dict_contains p ''facing''
             then dict_set p ''facing'' (transform_dir (dict_get p ''facing'') rot mirror) else p) = p1"
    unfolding p1_def by (rule dict_update_map [OF d0, of _ "\<lambda>v. transform_dir v rot mirror"])
  have s2: "(if dict_contains p1 ''horizontal_facing''
             then dict_set p1 ''horizontal_facing''
                    (transform_dir (dict_get p1 ''horizontal_facing'') rot mirror) else p1) = p2"
    unfolding p2_def by (rule dict_update_map [OF d1, of _ "\<lambda>v. transform_dir v rot mirror"])
  have s3: "(if dict_contains p2 ''orientation''
             then dict_set p2 ''orientation''
                    (transform_orientation (dict_get p2 ''orientation'') rot mirror) else p2) = p3"
    unfolding p3_def
    by (rule dict_update_map [OF d2, of _ "\<lambda>v. transform_orientation v rot mirror"])
  have s4: "(if dict_contains p3 ''axis''
             then dict_set p3 ''axis'' (transform_axis (dict_get p3 ''axis'') rot) else p3) = p4"
    unfolding p4_def by (rule dict_update_map [OF d3, of _ "\<lambda>v. transform_axis v rot"])
  have "p4 = transform_props rot mirror p"
    unfolding p4_def p3_def p2_def p1_def transform_props_def transform_value_def
    by (auto simp: comp_def)
  moreover have "transform_state s rot mirror = Inr (canonical_state n p4)"
    unfolding transform_state_def assms bind_err_def
    by (simp only: sum.case prod.case Let_def foldl.simps s1 s2 s3 s4)
  ultimately show ?thesis by simp
qed

section \<open>Verification: transform engine\<close>

lemma horizontal_iff:
  "d \<in> set HORIZONTAL \<longleftrightarrow> d = ''north'' \<or> d = ''east'' \<or> d = ''south'' \<or> d = ''west''"
  by (auto simp: HORIZONTAL_def)

lemma transform_dir_other:
  assumes "d \<notin> set HORIZONTAL"
  shows "transform_dir d rot mirror = d"
  using assms by (auto simp: transform_dir_def horizontal_iff Let_def)

lemma transform_dir_horizontal:
  assumes "d \<in> set HORIZONTAL"
  shows "transform_dir d rot mirror \<in> set HORIZONTAL"
proof -
  define j where "j = nat ((int (index_of HORIZONTAL d) + rot div 90) mod 4)"
  have "j < 4" unfolding j_def by (simp add: nat_less_iff)
  then have "j < length HORIZONTAL" by (simp add: HORIZONTAL_def)
  then have "HORIZONTAL ! j \<in> set HORIZONTAL" by (rule nth_mem)
  then show ?thesis
    using assms unfolding transform_dir_def Let_def j_def [symmetric]
    by (auto simp: horizontal_iff)
qed

lemma quarter_turn:
  "transform_dir ''north'' 90 ''none'' = ''east''"
  "transform_dir ''east'' 90 ''none'' = ''south''"
  "transform_dir ''south'' 90 ''none'' = ''west''"
  "transform_dir ''west'' 90 ''none'' = ''north''"
  by (simp_all add: transform_dir_def HORIZONTAL_def)

lemma no_turn:
  assumes "d \<in> set HORIZONTAL"
  shows "HORIZONTAL ! nat ((int (index_of HORIZONTAL d) + 0 div 90) mod 4) = d"
  using assms by (auto simp: HORIZONTAL_def)

lemma transform_dir_quarter4:
  "transform_dir (transform_dir (transform_dir (transform_dir d 90 ''none'') 90 ''none'')
      90 ''none'') 90 ''none'' = d"
proof (cases "d \<in> set HORIZONTAL")
  case True
  then show ?thesis unfolding horizontal_iff by (auto simp: quarter_turn)
next
  case False
  then show ?thesis by (simp add: transform_dir_other)
qed

lemma transform_dir_mirror:
  "transform_dir d 0 mirror =
     (if mirror = ''left_right''
      then (if d = ''north'' then ''south'' else if d = ''south'' then ''north'' else d)
      else if mirror = ''front_back''
      then (if d = ''east'' then ''west'' else if d = ''west'' then ''east'' else d)
      else d)"
proof (cases "d \<in> set HORIZONTAL")
  case True
  show ?thesis unfolding transform_dir_def Let_def using True by (simp only: no_turn if_True)
next
  case False
  then show ?thesis by (auto simp: transform_dir_other horizontal_iff)
qed

lemma transform_dir_mirror2:
  "transform_dir (transform_dir d 0 mirror) 0 mirror = d"
  by (simp add: transform_dir_mirror)

lemma transform_axis_quarter4:
  "transform_axis (transform_axis (transform_axis (transform_axis a 90) 90) 90) 90 = a"
  by (simp add: transform_axis_def)

lemma transform_axis_mirror2: "transform_axis (transform_axis a 0) 0 = a"
  by (simp add: transform_axis_def)

lemma underscore_split:
  assumes "CHR ''_'' \<in> set orientation"
  shows "orientation = takeWhile (\<lambda>c. c \<noteq> CHR ''_'') orientation
           @ CHR ''_'' # tl (dropWhile (\<lambda>c. c \<noteq> CHR ''_'') orientation)"
proof -
  let ?d = "dropWhile (\<lambda>c. c \<noteq> CHR ''_'') orientation"
  have "?d \<noteq> []" using assms by (simp add: dropWhile_eq_Nil_conv)
  moreover from this have "hd ?d = CHR ''_''" using hd_dropWhile [of "\<lambda>c. c \<noteq> CHR ''_''" orientation] by simp
  ultimately have "?d = CHR ''_'' # tl ?d" by (metis list.collapse)
  then show ?thesis by (metis takeWhile_dropWhile_id)
qed

lemma orientation_parts:
  assumes "CHR ''_'' \<notin> set a"
  shows "takeWhile (\<lambda>c. c \<noteq> CHR ''_'') (a @ CHR ''_'' # b) = a"
    "tl (dropWhile (\<lambda>c. c \<noteq> CHR ''_'') (a @ CHR ''_'' # b)) = b"
proof -
  have p: "\<forall>c\<in>set a. c \<noteq> CHR ''_''" using assms by auto
  have q: "\<not> (CHR ''_'' \<noteq> CHR ''_'')" by simp
  show "takeWhile (\<lambda>c. c \<noteq> CHR ''_'') (a @ CHR ''_'' # b) = a"
    "tl (dropWhile (\<lambda>c. c \<noteq> CHR ''_'') (a @ CHR ''_'' # b)) = b"
    using takeWhile_run [of a "\<lambda>c. c \<noteq> CHR ''_''" "CHR ''_''" b, OF p q] by simp_all
qed

lemma transform_orientation_parts:
  assumes "CHR ''_'' \<notin> set a"
  shows "transform_orientation (a @ CHR ''_'' # b) rot mirror
           = transform_dir a rot mirror @ CHR ''_'' # transform_dir b rot mirror"
  unfolding transform_orientation_def Let_def orientation_parts [OF assms]
  by (simp add: transform_dir_other)

lemma horizontal_plain:
  assumes "h \<in> set HORIZONTAL"
  shows "CHR ''_'' \<notin> set h" "CHR '','' \<notin> set h" "CHR 0x0A \<notin> set h" "h \<noteq> []"
    "\<not> is_space (hd h)" "\<not> is_space (last h)"
  using assms unfolding horizontal_iff by (auto simp: is_space_def)

lemma transform_dir_keeps:
  assumes "P d" "\<And>h. h \<in> set HORIZONTAL \<Longrightarrow> P h"
  shows "P (transform_dir d rot mirror)"
proof (cases "d \<in> set HORIZONTAL")
  case True
  then show ?thesis using transform_dir_horizontal assms(2) by blast
next
  case False
  then show ?thesis using assms(1) by (simp add: transform_dir_other)
qed

lemma transform_dir_no_underscore:
  "CHR ''_'' \<notin> set a \<Longrightarrow> CHR ''_'' \<notin> set (transform_dir a rot mirror)"
  by (rule transform_dir_keeps) (simp_all add: horizontal_plain)

lemma transform_orientation_quarter4:
  "transform_orientation (transform_orientation (transform_orientation
      (transform_orientation v 90 ''none'') 90 ''none'') 90 ''none'') 90 ''none'' = v"
proof (cases "CHR ''_'' \<in> set v")
  case False
  then show ?thesis by (simp add: transform_orientation_def)
next
  case True
  define a where "a = takeWhile (\<lambda>c. c \<noteq> CHR ''_'') v"
  define b where "b = tl (dropWhile (\<lambda>c. c \<noteq> CHR ''_'') v)"
  have v: "v = a @ CHR ''_'' # b" unfolding a_def b_def by (rule underscore_split [OF True])
  have a: "CHR ''_'' \<notin> set a" unfolding a_def by (auto dest: set_takeWhileD)
  note n1 = transform_dir_no_underscore [OF a, of 90 "''none''"]
  note n2 = transform_dir_no_underscore [OF n1, of 90 "''none''"]
  note n3 = transform_dir_no_underscore [OF n2, of 90 "''none''"]
  show ?thesis
    unfolding v
    by (simp only: transform_orientation_parts [OF a] transform_orientation_parts [OF n1]
        transform_orientation_parts [OF n2] transform_orientation_parts [OF n3]
        transform_dir_quarter4)
qed

lemma transform_orientation_mirror2:
  "transform_orientation (transform_orientation v 0 mirror) 0 mirror = v"
proof (cases "CHR ''_'' \<in> set v")
  case False
  then show ?thesis by (simp add: transform_orientation_def)
next
  case True
  define a where "a = takeWhile (\<lambda>c. c \<noteq> CHR ''_'') v"
  define b where "b = tl (dropWhile (\<lambda>c. c \<noteq> CHR ''_'') v)"
  have v: "v = a @ CHR ''_'' # b" unfolding a_def b_def by (rule underscore_split [OF True])
  have a: "CHR ''_'' \<notin> set a" unfolding a_def by (auto dest: set_takeWhileD)
  note n1 = transform_dir_no_underscore [OF a, of 0 mirror]
  show ?thesis
    unfolding v
    by (simp only: transform_orientation_parts [OF a] transform_orientation_parts [OF n1]
        transform_dir_mirror2)
qed

lemma transform_value_quarter4:
  "transform_value 90 ''none'' k (transform_value 90 ''none'' k
     (transform_value 90 ''none'' k (transform_value 90 ''none'' k v))) = v"
  by (simp add: transform_value_def transform_dir_quarter4 transform_orientation_quarter4
      transform_axis_quarter4)

lemma transform_value_mirror2:
  "transform_value 0 mirror k (transform_value 0 mirror k v) = v"
  by (simp add: transform_value_def transform_dir_mirror2 transform_orientation_mirror2
      transform_axis_mirror2)

lemma transform_props_quarter4:
  "transform_props 90 ''none'' (transform_props 90 ''none''
     (transform_props 90 ''none'' (transform_props 90 ''none'' p))) = p"
  by (induction p) (auto simp: transform_props_def transform_value_quarter4)

lemma transform_props_mirror2:
  "transform_props 0 mirror (transform_props 0 mirror p) = p"
  by (induction p) (auto simp: transform_props_def transform_value_mirror2)

lemma val_ok_ends:
  assumes "val_ok v"
  shows "v \<noteq> []" "\<not> is_space (hd v)" "\<not> is_space (last v)"
    "CHR '','' \<notin> set v" "CHR 0x0A \<notin> set v"
proof -
  have v: "v \<noteq> []" "strip v = v" using assms by (simp_all add: val_ok_def)
  show "v \<noteq> []" by (rule v(1))
  show "\<not> is_space (hd v)" "\<not> is_space (last v)"
    using strip_ends [of v] v by simp_all
  show "CHR '','' \<notin> set v" "CHR 0x0A \<notin> set v" using assms by (simp_all add: val_ok_def)
qed

lemma val_okI:
  assumes "v \<noteq> []" "\<not> is_space (hd v)" "\<not> is_space (last v)"
    "CHR '','' \<notin> set v" "CHR 0x0A \<notin> set v"
  shows "val_ok v"
  unfolding val_ok_def using assms strip_id [OF assms(1,2,3)] by simp

lemma horizontal_val_ok: "h \<in> set HORIZONTAL \<Longrightarrow> val_ok h"
  by (intro val_okI) (simp_all add: horizontal_plain)

lemma val_ok_transform_dir: "val_ok v \<Longrightarrow> val_ok (transform_dir v rot mirror)"
  by (rule transform_dir_keeps) (simp_all add: horizontal_val_ok)

lemma val_ok_transform_axis: "val_ok v \<Longrightarrow> val_ok (transform_axis v rot)"
proof -
  assume v: "val_ok v"
  have "val_ok ''x''" "val_ok ''z''" by (intro val_okI; simp add: is_space_def)+
  then show ?thesis using v by (auto simp: transform_axis_def)
qed

lemma hd_transform_dir:
  assumes "a \<noteq> []" "\<not> is_space (hd a)"
  shows "transform_dir a rot mirror \<noteq> [] \<and> \<not> is_space (hd (transform_dir a rot mirror))"
  by (rule transform_dir_keeps [where P = "\<lambda>x. x \<noteq> [] \<and> \<not> is_space (hd x)"])
    (simp_all add: assms horizontal_plain)

lemma last_transform_dir:
  assumes "b \<noteq> []" "\<not> is_space (last b)"
  shows "transform_dir b rot mirror \<noteq> [] \<and> \<not> is_space (last (transform_dir b rot mirror))"
  by (rule transform_dir_keeps [where P = "\<lambda>x. x \<noteq> [] \<and> \<not> is_space (last x)"])
    (simp_all add: assms horizontal_plain)

lemma empty_transform_dir: "transform_dir [] rot mirror = []"
  by (simp add: transform_dir_other horizontal_iff)

lemma clean_transform_dir:
  assumes "c \<notin> set a" "\<And>h. h \<in> set HORIZONTAL \<Longrightarrow> c \<notin> set h"
  shows "c \<notin> set (transform_dir a rot mirror)"
  by (rule transform_dir_keeps [where P = "\<lambda>x. c \<notin> set x"]) (simp_all add: assms)

lemma val_ok_transform_orientation:
  assumes "val_ok v"
  shows "val_ok (transform_orientation v rot mirror)"
proof (cases "CHR ''_'' \<in> set v")
  case False
  then show ?thesis using assms by (simp add: transform_orientation_def)
next
  case True
  define a where "a = takeWhile (\<lambda>c. c \<noteq> CHR ''_'') v"
  define b where "b = tl (dropWhile (\<lambda>c. c \<noteq> CHR ''_'') v)"
  have v: "v = a @ CHR ''_'' # b" unfolding a_def b_def by (rule underscore_split [OF True])
  have a: "CHR ''_'' \<notin> set a" unfolding a_def by (auto dest: set_takeWhileD)
  let ?a = "transform_dir a rot mirror"
  let ?b = "transform_dir b rot mirror"
  let ?r = "?a @ CHR ''_'' # ?b"
  have r: "transform_orientation v rot mirror = ?r"
    unfolding v by (rule transform_orientation_parts [OF a])
  note e = val_ok_ends [OF assms]
  have us: "\<not> is_space CHR ''_''" by (simp add: is_space_def)
  have h: "\<not> is_space (hd ?r)"
  proof (cases "a = []")
    case True
    then show ?thesis using us by (simp add: empty_transform_dir)
  next
    case False
    then have "\<not> is_space (hd a)" using e(2) v by simp
    then show ?thesis using hd_transform_dir [OF False, of rot mirror] by simp
  qed
  have l: "\<not> is_space (last ?r)"
  proof (cases "b = []")
    case True
    then show ?thesis using us by (simp add: empty_transform_dir)
  next
    case False
    then have "\<not> is_space (last b)" using e(3) v by simp
    then show ?thesis using last_transform_dir [OF False, of rot mirror] by simp
  qed
  have ca: "CHR '','' \<notin> set a" "CHR 0x0A \<notin> set a" "CHR '','' \<notin> set b" "CHR 0x0A \<notin> set b"
    using e(4,5) v by simp_all
  have c: "CHR '','' \<notin> set ?r" "CHR 0x0A \<notin> set ?r"
    using clean_transform_dir [OF ca(1), of rot mirror] clean_transform_dir [OF ca(2), of rot mirror]
      clean_transform_dir [OF ca(3), of rot mirror] clean_transform_dir [OF ca(4), of rot mirror]
    by (simp_all add: horizontal_plain)
  have "val_ok ?r" by (rule val_okI [OF _ h l c]) simp
  then show ?thesis by (simp only: r)
qed

lemma val_ok_transform_value:
  "val_ok v \<Longrightarrow> val_ok (transform_value rot mirror k v)"
  by (simp add: transform_value_def val_ok_transform_dir val_ok_transform_orientation
      val_ok_transform_axis)

lemma transform_props_keys: "map fst (transform_props rot mirror p) = map fst p"
  by (induction p) (auto simp: transform_props_def)

lemma transform_props_ok:
  assumes "props_ok p"
  shows "props_ok (transform_props rot mirror p)"
proof -
  have "\<forall>(k, v)\<in>set (transform_props rot mirror p). key_ok k \<and> val_ok v"
    using assms by (auto simp: props_ok_def transform_props_def val_ok_transform_value)
  then show ?thesis using assms by (simp add: props_ok_def transform_props_keys)
qed

lemma dict_get_transform:
  assumes "distinct (map fst p)" "k \<in> set (map fst p)"
  shows "dict_get (transform_props rot mirror p) k = transform_value rot mirror k (dict_get p k)"
proof -
  from assms(2) obtain v where kv: "(k, v) \<in> set p" by auto
  then have "(k, transform_value rot mirror k v) \<in> set (transform_props rot mirror p)"
    by (force simp: transform_props_def)
  moreover have "distinct (map fst (transform_props rot mirror p))"
    using assms(1) by (simp add: transform_props_keys)
  ultimately have "dict_get (transform_props rot mirror p) k = transform_value rot mirror k v"
    by (rule dict_get_in [rotated])
  then show ?thesis using dict_get_in [OF assms(1) kv] by simp
qed

lemma canon_transform_props:
  assumes "distinct (map fst p)"
  shows "canon_props (transform_props rot mirror p) = transform_props rot mirror (canon_props p)"
proof -
  let ?ks = "sort (map fst p)"
  have "canon_props (transform_props rot mirror p)
          = map (\<lambda>k. (k, dict_get (transform_props rot mirror p) k)) ?ks"
    unfolding canon_props_def transform_props_keys ..
  also have "\<dots> = map (\<lambda>k. (k, transform_value rot mirror k (dict_get p k))) ?ks"
    by (rule map_cong [OF refl]) (simp add: dict_get_transform [OF assms])
  also have "\<dots> = transform_props rot mirror (canon_props p)"
    by (simp add: transform_props_def canon_props_def comp_def)
  finally show ?thesis .
qed

lemma transform_state_canonical:
  assumes "name_ok n" "props_ok p"
  shows "transform_state (canonical_state n p) rot mirror
           = Inr (canonical_state n (transform_props rot mirror p))"
proof -
  have d: "distinct (map fst p)" using assms(2) by (simp add: props_ok_def)
  have "transform_state (canonical_state n p) rot mirror
          = Inr (canonical_state n (transform_props rot mirror (canon_props p)))"
    by (rule transform_state_props [OF parse_canonical [OF assms]])
  also have "\<dots> = Inr (canonical_state n (canon_props (transform_props rot mirror p)))"
    by (simp only: canon_transform_props [OF d])
  finally show ?thesis by (simp only: canonical_canon)
qed

lemma rotate_state4_canonical:
  assumes "parse_block_state s = Inr (n, p)"
  shows "rotate_state4 s = Inr (canonical_state n p)"
proof -
  note ok = parse_ok [OF assms]
  let ?t = "transform_props 90 ''none''"
  note o1 = transform_props_ok [OF ok(2), of 90 "''none''"]
  note o2 = transform_props_ok [OF o1, of 90 "''none''"]
  note o3 = transform_props_ok [OF o2, of 90 "''none''"]
  show ?thesis
    unfolding rotate_state4_def
    by (simp only: transform_state_props [OF assms] bind_err_Inr
        transform_state_canonical [OF ok(1) o1] transform_state_canonical [OF ok(1) o2]
        transform_state_canonical [OF ok(1) o3] transform_props_quarter4)
qed

lemma mirror_state2_canonical:
  assumes "parse_block_state s = Inr (n, p)"
  shows "mirror_state2 s mirror = Inr (canonical_state n p)"
proof -
  note ok = parse_ok [OF assms]
  note o1 = transform_props_ok [OF ok(2), of 0 mirror]
  show ?thesis
    unfolding mirror_state2_def
    by (simp only: transform_state_props [OF assms] bind_err_Inr
        transform_state_canonical [OF ok(1) o1] transform_props_mirror2)
qed

lemma rotate_pos4_id: "rotate_pos4 x y z box = Inr (x, y, z)"
  by (cases box) (simp add: rotate_pos4_def rotate_pos_def rotate_size_def bind_err_def Let_def)

lemma mirror_pos2_id:
  assumes "mirror \<in> {''none'', ''left_right'', ''front_back''}"
  shows "mirror_pos2 x y z box mirror = Inr (x, y, z)"
  using assms by (cases box) (auto simp: mirror_pos2_def mirror_pos_def bind_err_def)

lemma parse_stairs_unsorted:
  "parse_block_state ''minecraft:oak_stairs[half=bottom,facing=east]''
     = Inr (''minecraft:oak_stairs'', [(''half'', ''bottom''), (''facing'', ''east'')])"
  by (simp add: parse_block_state_def STATE_RE_match_def strip_def is_space_def name_char_def
      props_group_def bind_err_def Let_def)

lemma parse_stairs_spaced:
  "parse_block_state '' minecraft:oak_stairs[half=bottom, facing=east] ''
     = Inr (''minecraft:oak_stairs'', [(''half'', ''bottom''), (''facing'', ''east'')])"
  by (simp add: parse_block_state_def STATE_RE_match_def strip_def is_space_def name_char_def
      props_group_def bind_err_def Let_def)

lemma parse_stairs:
  "parse_block_state ''minecraft:oak_stairs[facing=east,half=bottom]''
     = Inr (''minecraft:oak_stairs'', [(''facing'', ''east''), (''half'', ''bottom'')])"
  by (simp add: parse_block_state_def STATE_RE_match_def strip_def is_space_def name_char_def
      props_group_def bind_err_def Let_def)

lemma canonical_stairs:
  "canonical_state ''minecraft:oak_stairs'' [(''half'', ''bottom''), (''facing'', ''east'')]
     = ''minecraft:oak_stairs[facing=east,half=bottom]''"
  "canonical_state ''minecraft:oak_stairs'' [(''facing'', ''east''), (''half'', ''bottom'')]
     = ''minecraft:oak_stairs[facing=east,half=bottom]''"
  "canonical_state ''minecraft:oak_stairs'' [(''facing'', ''south''), (''half'', ''bottom'')]
     = ''minecraft:oak_stairs[facing=south,half=bottom]''"
  by (simp_all add: canonical_state_def dict_get_def)

text \<open>
C5 (as stated, refuted).  \<open>transform_state\<close> takes and returns state strings and prints
  its result in canonical form.  Four quarter turns of a state whose keys are not sorted
  return the sorted string, not the original one.
\<close>

theorem C5_state_string_counterexample:
  "rotate_state4 ''minecraft:oak_stairs[half=bottom,facing=east]''
     = Inr ''minecraft:oak_stairs[facing=east,half=bottom]''
   \<and> rotate_state4 ''minecraft:oak_stairs[half=bottom,facing=east]''
     \<noteq> Inr ''minecraft:oak_stairs[half=bottom,facing=east]''"
  by (simp add: rotate_state4_canonical [OF parse_stairs_unsorted] canonical_stairs)

text \<open>
C5 (amended).  Four quarter turns of a coordinate, each against the box size the turn
  before produced, return the coordinate; the same mirror mode twice returns the
  coordinate.  Four quarter turns of a state that parses, and the same mirror twice, return
  the canonical form of the state (same name, same properties, keys sorted); on a state
  that is already in canonical form they return the state itself.
\<close>

theorem C5_rotation_mirror_identity:
  "rotate_pos4 x y z box = Inr (x, y, z)
   \<and> (mirror \<in> {''none'', ''left_right'', ''front_back''}
        \<longrightarrow> mirror_pos2 x y z box mirror = Inr (x, y, z))
   \<and> (parse_block_state s = Inr (n, p)
        \<longrightarrow> rotate_state4 s = Inr (canonical_state n p)
          \<and> mirror_state2 s mirror = Inr (canonical_state n p)
          \<and> rotate_state4 (canonical_state n p) = Inr (canonical_state n p)
          \<and> mirror_state2 (canonical_state n p) mirror = Inr (canonical_state n p))"
proof (intro conjI impI)
  show "rotate_pos4 x y z box = Inr (x, y, z)" by (rule rotate_pos4_id)
next
  assume "mirror \<in> {''none'', ''left_right'', ''front_back''}"
  then show "mirror_pos2 x y z box mirror = Inr (x, y, z)" by (rule mirror_pos2_id)
next
  assume s: "parse_block_state s = Inr (n, p)"
  note c = parse_canonical [OF parse_ok [OF s]]
  show "rotate_state4 s = Inr (canonical_state n p)" by (rule rotate_state4_canonical [OF s])
  show "mirror_state2 s mirror = Inr (canonical_state n p)"
    by (rule mirror_state2_canonical [OF s])
  show "rotate_state4 (canonical_state n p) = Inr (canonical_state n p)"
    using rotate_state4_canonical [OF c] by (simp only: canonical_canon)
  show "mirror_state2 (canonical_state n p) mirror = Inr (canonical_state n p)"
    using mirror_state2_canonical [OF c] by (simp only: canonical_canon)
qed

text \<open>
A coordinate of a 3 x 1 x 4 box and a stairs state in canonical form.
\<close>

theorem C5_rotation_mirror_identity_witness:
  "rotate_pos4 1 0 2 (3, 1, 4) = Inr (1, 0, 2)
   \<and> mirror_pos2 1 0 2 (3, 1, 4) ''left_right'' = Inr (1, 0, 2)
   \<and> rotate_state4 ''minecraft:oak_stairs[facing=east,half=bottom]''
        = Inr ''minecraft:oak_stairs[facing=east,half=bottom]''
   \<and> mirror_state2 ''minecraft:oak_stairs[facing=east,half=bottom]'' ''left_right''
        = Inr ''minecraft:oak_stairs[facing=east,half=bottom]''"
  using C5_rotation_mirror_identity
    [of 1 0 2 "(3, 1, 4)" "''left_right''" "''minecraft:oak_stairs[facing=east,half=bottom]''"
      "''minecraft:oak_stairs''" "[(''facing'', ''east''), (''half'', ''bottom'')]"]
  by (simp add: parse_stairs canonical_stairs)

text \<open>
C6.  The output size of a compilation is \<open>rotate_size\<close> of the plan's size: unchanged at
  \<open>rot = 0\<close>, with x and z swapped at \<open>rot = 90\<close>.  \<open>facing=east\<close> becomes \<open>facing=south\<close> at
  \<open>rot = 90\<close>, and stays \<open>east\<close> under the mirror \<open>left_right\<close> alone.
\<close>

theorem C6_pinned_transforms:
  "rotate_size (sx, sy, sz) 0 = (sx, sy, sz)
   \<and> rotate_size (sx, sy, sz) 90 = (sz, sy, sx)
   \<and> transform_dir ''east'' 90 ''none'' = ''south''
   \<and> transform_dir ''east'' 0 ''left_right'' = ''east''
   \<and> transform_state ''minecraft:oak_stairs[facing=east,half=bottom]'' 90 ''none''
        = Inr ''minecraft:oak_stairs[facing=south,half=bottom]''
   \<and> transform_state ''minecraft:oak_stairs[facing=east,half=bottom]'' 0 ''left_right''
        = Inr ''minecraft:oak_stairs[facing=east,half=bottom]''"
proof -
  have d: "transform_dir ''east'' 90 ''none'' = ''south''"
    "transform_dir ''east'' 0 ''left_right'' = ''east''"
    by (simp_all add: quarter_turn transform_dir_mirror)
  have "transform_props 90 ''none'' [(''facing'', ''east''), (''half'', ''bottom'')]
          = [(''facing'', ''south''), (''half'', ''bottom'')]"
    "transform_props 0 ''left_right'' [(''facing'', ''east''), (''half'', ''bottom'')]
          = [(''facing'', ''east''), (''half'', ''bottom'')]"
    by (simp_all add: transform_props_def transform_value_def d)
  then show ?thesis
    by (simp add: transform_state_props [OF parse_stairs] canonical_stairs d rotate_size_def)
qed

text \<open>
A state with surrounding and inner blanks and unsorted keys.
\<close>

theorem C8_canonical_idempotent_witness:
  "parse_block_state '' minecraft:oak_stairs[half=bottom, facing=east] ''
     = Inr (''minecraft:oak_stairs'', [(''half'', ''bottom''), (''facing'', ''east'')])
   \<and> canonical_state ''minecraft:oak_stairs'' [(''half'', ''bottom''), (''facing'', ''east'')]
     = ''minecraft:oak_stairs[facing=east,half=bottom]''
   \<and> parse_block_state ''minecraft:oak_stairs[facing=east,half=bottom]''
     = Inr (''minecraft:oak_stairs'', [(''facing'', ''east''), (''half'', ''bottom'')])"
proof -
  have "canon_props [(''half'', ''bottom''), (''facing'', ''east'')]
          = [(''facing'', ''east''), (''half'', ''bottom'')]"
    by (simp add: canon_props_def dict_get_def)
  then show ?thesis
    using C8_canonical_idempotent [OF parse_stairs_spaced]
    by (simp add: parse_stairs_spaced canonical_stairs)
qed

section \<open>Verification: plan validator\<close>

lemma bind_err_Inr_iff: "bind_err m f = Inr u \<longleftrightarrow> (\<exists>v. m = Inr v \<and> f v = Inr u)"
  by (cases m) (simp_all add: bind_err_def)

lemma bind_err_InrE:
  assumes "bind_err m f = Inr u"
  obtains v where "m = Inr v" "f v = Inr u"
  using assms by (auto simp: bind_err_Inr_iff)

lemma require_Inr_iff: "require ok msg = Inr u \<longleftrightarrow> ok"
  by (simp add: require_def)

lemma for_each_Inr:
  assumes "for_each body xs = Inr u" "x \<in> set xs"
  shows "body x = Inr ()"
  using assms by (induction xs) (auto simp: bind_err_Inr_iff)

lemma obj_get_Inr_iff: "obj_get obj k = Inr v \<longleftrightarrow> map_of obj k = Some v"
  by (simp add: obj_get_def split: option.splits)

lemma each_in_list_Inr:
  assumes "each_in_list v msg body = Inr u"
  shows "\<exists>items. v = JList items \<and> (\<forall>x\<in>set items. body x = Inr ())"
  using assms by (cases v) (auto simp: each_in_list_def dest: for_each_Inr)

lemma validate_ok_shape:
  assumes "validate_plan_shape plan = Inr u"
  shows "\<exists>members refs box blocks.
           plan = JObj members
         \<and> map_of members ''palette_refs'' = Some (JObj refs)
         \<and> set (map fst refs) = set SUPPORTED_BIOMES
         \<and> (\<forall>biome\<in>set SUPPORTED_BIOMES. check_palette refs biome = Inr ())
         \<and> map_of members ''blocks'' = Some (JList blocks)
         \<and> (\<forall>b\<in>set blocks. check_block refs box b = Inr ())"
proof -
  from assms obtain members where plan: "plan = JObj members"
    by (cases plan) (simp_all add: validate_plan_shape_def)
  from assms obtain box refs_v where
    refs_v: "map_of members ''palette_refs'' = Some refs_v"
    and rest: "(case refs_v of
              JObj palette_refs \<Rightarrow>
                bind_err (require (palette_refs \<noteq> []) ''palette_refs must be a non-empty object'') (\<lambda>_.
                bind_err (require (set (map fst palette_refs) = set SUPPORTED_BIOMES)
                            ''palette_refs must contain exactly the supported biomes'') (\<lambda>_.
                bind_err (for_each (check_palette palette_refs) SUPPORTED_BIOMES) (\<lambda>_.
                bind_err (obj_get members ''blocks'') (\<lambda>blocks.
                bind_err (require (blocks \<noteq> JList []) ''blocks must be a non-empty list'') (\<lambda>_.
                bind_err (each_in_list blocks ''blocks must be a non-empty list''
                            (check_block palette_refs box)) (\<lambda>_.
                bind_err (obj_get members ''jigsaws'') (\<lambda>jigsaws.
                bind_err (each_in_list jigsaws ''jigsaws must be a list'' (\<lambda>_. Inr ())) (\<lambda>_.
                bind_err (require (jigsaws \<noteq> JList []) ''jigsaws must contain at least one entry'') (\<lambda>_.
                bind_err (each_in_list jigsaws ''jigsaws must be a list'' (check_jigsaw box)) (\<lambda>_.
                bind_err (obj_get members ''block_entities'') (\<lambda>block_entities.
                bind_err (each_in_list block_entities ''block_entities must be a list''
                            (check_block_entity box)) (\<lambda>_.
                bind_err (obj_get members ''entities'') (\<lambda>entities.
                each_in_list entities ''entities must be a list'' (check_entity box))))))))))))))
            | _ \<Rightarrow> Inl (StructgenError ''palette_refs must be a non-empty object'')) = Inr u"
    unfolding plan validate_plan_shape_def json.case bind_err_Inr_iff obj_get_Inr_iff
    by blast
  from rest obtain refs where refs: "refs_v = JObj refs"
    by (cases refs_v) simp_all
  from rest [unfolded refs json.case bind_err_Inr_iff obj_get_Inr_iff require_Inr_iff]
  obtain blocks_v where
    keys: "set (map fst refs) = set SUPPORTED_BIOMES"
    and pal: "for_each (check_palette refs) SUPPORTED_BIOMES = Inr ()"
    and bl: "map_of members ''blocks'' = Some blocks_v"
    and each: "each_in_list blocks_v ''blocks must be a non-empty list''
                 (check_block refs box) = Inr ()"
    by auto
  from each_in_list_Inr [OF each] obtain blocks where
    "blocks_v = JList blocks" "\<forall>b\<in>set blocks. check_block refs box b = Inr ()" by blast
  then show ?thesis using plan refs_v refs keys bl for_each_Inr [OF pal] by blast
qed

lemma check_palette_Inr:
  assumes "check_palette refs biome = Inr u"
  shows "\<exists>pal. map_of refs biome = Some (JObj pal)"
proof -
  from assms obtain palette where p: "map_of refs biome = Some palette"
    and c: "(case palette of JObj entries \<Rightarrow>
           for_each (\<lambda>(mk, state).
             bind_err (require (mk \<noteq> []) ''invalid material key'') (\<lambda>_.
             check_state state ''palette state must be string'')) entries
       | _ \<Rightarrow> Inl (StructgenError ''palette must be an object'')) = Inr u"
    unfolding check_palette_def bind_err_Inr_iff obj_get_Inr_iff by blast
  then show ?thesis by (cases palette) simp_all
qed

lemma palette_has_Inr:
  assumes "palette_has refs biome mk = Inr True"
  shows "\<exists>pal. map_of refs biome = Some (JObj pal) \<and> mk \<in> set (map fst pal)"
proof -
  from assms obtain palette where p: "map_of refs biome = Some palette"
    and c: "(case palette of JObj entries \<Rightarrow> Inr (obj_has entries mk) | _ \<Rightarrow> Inl TypeError)
              = Inr True"
    unfolding palette_has_def bind_err_Inr_iff obj_get_Inr_iff by blast
  then show ?thesis by (cases palette) (simp_all add: obj_has_def)
qed

lemma check_block_material:
  assumes "check_block refs box (JObj bm) = Inr u" "map_of bm ''material_key'' = Some mkv"
  shows "\<exists>mk. mkv = JStr mk \<and> mk \<noteq> []
           \<and> (\<forall>biome\<in>set SUPPORTED_BIOMES.
                 \<exists>pal. map_of refs biome = Some (JObj pal) \<and> mk \<in> set (map fst pal))"
proof -
  have has: "obj_has bm ''material_key''"
    using assms(2) unfolding obj_has_def by (metis map_of_SomeD fst_conv image_eqI set_map)
  from assms(1) have
    "bind_err (obj_get bm ''material_key'') (\<lambda>mk_v.
                 case mk_v of
                   JStr mk \<Rightarrow>
                     bind_err (require (mk \<noteq> []) ''material_key must be non-empty string'') (\<lambda>_.
                     for_each (\<lambda>biome.
                       bind_err (palette_has refs biome mk) (\<lambda>present.
                       require present ''material_key missing in palette_refs''))
                       SUPPORTED_BIOMES)
                 | _ \<Rightarrow> Inl (StructgenError ''material_key must be non-empty string'')) = Inr ()"
    unfolding check_block_def json.case by (elim bind_err_InrE) (simp add: has)
  then have c: "(case mkv of
                   JStr mk \<Rightarrow>
                     bind_err (require (mk \<noteq> []) ''material_key must be non-empty string'') (\<lambda>_.
                     for_each (\<lambda>biome.
                       bind_err (palette_has refs biome mk) (\<lambda>present.
                       require present ''material_key missing in palette_refs''))
                       SUPPORTED_BIOMES)
                 | _ \<Rightarrow> Inl (StructgenError ''material_key must be non-empty string'')) = Inr ()"
    unfolding bind_err_Inr_iff obj_get_Inr_iff using assms(2) by simp
  then obtain mk where mk: "mkv = JStr mk" by (cases mkv) simp_all
  from c [unfolded mk json.case bind_err_Inr_iff require_Inr_iff]
  have ne: "mk \<noteq> []"
    and fe: "for_each (\<lambda>biome.
                       bind_err (palette_has refs biome mk) (\<lambda>present.
                       require present ''material_key missing in palette_refs''))
                       SUPPORTED_BIOMES = Inr ()"
    by auto
  have "\<exists>pal. map_of refs biome = Some (JObj pal) \<and> mk \<in> set (map fst pal)"
    if "biome \<in> set SUPPORTED_BIOMES" for biome
  proof -
    have "bind_err (palette_has refs biome mk) (\<lambda>present.
            require present ''material_key missing in palette_refs'') = Inr ()"
      using for_each_Inr [OF fe that] .
    then have "palette_has refs biome mk = Inr True"
      unfolding bind_err_Inr_iff require_Inr_iff by auto
    then show ?thesis by (rule palette_has_Inr)
  qed
  then show ?thesis using mk ne by blast
qed

text \<open>
C9.  Shape validation fails (returns an error) for every plan whose \<open>palette_refs\<close> key set
  differs from the supported biome set, whether a biome is missing or an extra key is
  present, and for every plan in which some block's \<open>material_key\<close> is absent from the palette
  mapping of some supported biome.
\<close>

theorem C9_validator_rejects:
  "(\<forall>members refs.
       plan = JObj members
       \<and> map_of members ''palette_refs'' = Some (JObj refs)
       \<and> set (map fst refs) \<noteq> set SUPPORTED_BIOMES
      \<longrightarrow> isl (validate_plan_shape plan))
   \<and> (\<forall>members refs blocks bm mk biome pal.
       plan = JObj members
       \<and> map_of members ''palette_refs'' = Some (JObj refs)
       \<and> map_of members ''blocks'' = Some (JList blocks)
       \<and> JObj bm \<in> set blocks
       \<and> map_of bm ''material_key'' = Some (JStr mk)
       \<and> biome \<in> set SUPPORTED_BIOMES
       \<and> map_of refs biome = Some (JObj pal)
       \<and> mk \<notin> set (map fst pal)
      \<longrightarrow> isl (validate_plan_shape plan))"
proof (intro conjI allI impI)
  fix members refs
  assume a: "plan = JObj members \<and> map_of members ''palette_refs'' = Some (JObj refs)
       \<and> set (map fst refs) \<noteq> set SUPPORTED_BIOMES"
  show "isl (validate_plan_shape plan)"
  proof (rule ccontr)
    assume "\<not> isl (validate_plan_shape plan)"
    then obtain u where "validate_plan_shape plan = Inr u"
      by (cases "validate_plan_shape plan") simp_all
    from validate_ok_shape [OF this] a show False by auto
  qed
next
  fix members refs blocks bm mk biome pal
  assume a: "plan = JObj members
       \<and> map_of members ''palette_refs'' = Some (JObj refs)
       \<and> map_of members ''blocks'' = Some (JList blocks)
       \<and> JObj bm \<in> set blocks
       \<and> map_of bm ''material_key'' = Some (JStr mk)
       \<and> biome \<in> set SUPPORTED_BIOMES
       \<and> map_of refs biome = Some (JObj pal)
       \<and> mk \<notin> set (map fst pal)"
  show "isl (validate_plan_shape plan)"
  proof (rule ccontr)
    assume "\<not> isl (validate_plan_shape plan)"
    then obtain u where "validate_plan_shape plan = Inr u"
      by (cases "validate_plan_shape plan") simp_all
    from validate_ok_shape [OF this] a obtain box where
      "check_block refs box (JObj bm) = Inr ()" by auto
    from check_block_material [OF this] a show False by fastforce
  qed
qed

lemma demo_refs_lookup:
  "b \<in> set biomes \<Longrightarrow> map_of (demo_palette_refs biomes) b
      = Some (JObj [(''wall'', JStr ''minecraft:stone'')])"
  by (induction biomes) (auto simp: demo_palette_refs_def)

lemma demo_refs_keys: "map fst (demo_palette_refs biomes) = biomes"
  by (simp add: demo_palette_refs_def comp_def)

lemma demo_members_lookup:
  "map_of (demo_members biomes material) ''palette_refs'' = Some (JObj (demo_palette_refs biomes))"
  "map_of (demo_members biomes material) ''blocks'' = Some (JList [JObj (demo_block material)])"
  by (simp_all add: demo_members_def)

lemma demo_block_lookup: "map_of (demo_block material) ''material_key'' = Some (JStr material)"
  by (simp add: demo_block_def)

text \<open>
A plan without \<open>taiga\<close>, a plan with the extra key \<open>jungle\<close>, and a plan whose block names
  the material \<open>roof\<close> that no palette has.  (\<open>demo_plan_accepted\<close> below: the same plan with
  the five biomes and the material \<open>wall\<close> is accepted.)
\<close>

theorem C9_validator_rejects_witness:
  "isl (validate_plan_shape (demo_plan [''plains'', ''desert'', ''savanna'', ''snowy''] ''wall''))
   \<and> isl (validate_plan_shape
            (demo_plan [''plains'', ''desert'', ''savanna'', ''snowy'', ''taiga'', ''jungle''] ''wall''))
   \<and> isl (validate_plan_shape (demo_plan SUPPORTED_BIOMES ''roof''))"
proof -
  let ?four = "[''plains'', ''desert'', ''savanna'', ''snowy'']"
  let ?six = "[''plains'', ''desert'', ''savanna'', ''snowy'', ''taiga'', ''jungle'']"
  have four: "set ?four \<noteq> set SUPPORTED_BIOMES"
  proof -
    have "''taiga'' \<in> set SUPPORTED_BIOMES" by (simp add: SUPPORTED_BIOMES_def)
    moreover have "''taiga'' \<notin> set ?four" by simp
    ultimately show ?thesis by metis
  qed
  have six: "set ?six \<noteq> set SUPPORTED_BIOMES"
  proof -
    have "''jungle'' \<notin> set SUPPORTED_BIOMES" by (simp add: SUPPORTED_BIOMES_def)
    moreover have "''jungle'' \<in> set ?six" by simp
    ultimately show ?thesis by metis
  qed
  have d: "''desert'' \<in> set SUPPORTED_BIOMES" by (simp add: SUPPORTED_BIOMES_def)
  have r: "''roof'' \<notin> set (map fst [(''wall'', JStr ''minecraft:stone'')])" by simp
  have "isl (validate_plan_shape (demo_plan ?four ''wall''))"
    using C9_validator_rejects [of "demo_plan ?four ''wall''", THEN conjunct1, rule_format,
        of "demo_members ?four ''wall''" "demo_palette_refs ?four"] four
    by (simp only: demo_plan_def demo_members_lookup demo_refs_keys simp_thms)
  moreover have "isl (validate_plan_shape (demo_plan ?six ''wall''))"
    using C9_validator_rejects [of "demo_plan ?six ''wall''", THEN conjunct1, rule_format,
        of "demo_members ?six ''wall''" "demo_palette_refs ?six"] six
    by (simp only: demo_plan_def demo_members_lookup demo_refs_keys simp_thms)
  moreover have "isl (validate_plan_shape (demo_plan SUPPORTED_BIOMES ''roof''))"
    using C9_validator_rejects [of "demo_plan SUPPORTED_BIOMES ''roof''", THEN conjunct2,
        rule_format, of "demo_members SUPPORTED_BIOMES ''roof''"
          "demo_palette_refs SUPPORTED_BIOMES" "[JObj (demo_block ''roof'')]" "demo_block ''roof''"
          "''roof''" "''desert''" "[(''wall'', JStr ''minecraft:stone'')]"]
      d r demo_refs_lookup [OF d]
    by (simp only: demo_plan_def demo_members_lookup demo_block_lookup simp_thms
        list.set_intros)
  ultimately show ?thesis by simp
qed

lemma parse_plain_names:
  "parse_block_state ''minecraft:stone'' = Inr (''minecraft:stone'', [])"
  "parse_block_state ''minecraft:air'' = Inr (''minecraft:air'', [])"
  by (simp_all add: parse_block_state_def STATE_RE_match_def strip_def is_space_def name_char_def
      Let_def)

lemma demo_palette_ok:
  "b \<in> set SUPPORTED_BIOMES \<Longrightarrow> check_palette (demo_palette_refs SUPPORTED_BIOMES) b = Inr ()"
  by (simp add: check_palette_def obj_get_def demo_refs_lookup bind_err_Inr require_def
      check_state_def parse_plain_names)

lemma for_each_all:
  "(\<forall>x\<in>set xs. body x = Inr ()) \<Longrightarrow> for_each body xs = Inr ()"
  by (induction xs) (simp_all add: bind_err_Inr)

lemma demo_block_ok:
  "check_block (demo_palette_refs SUPPORTED_BIOMES) (2, 1, 1) (JObj (demo_block ''wall'')) = Inr ()"
proof -
  have "for_each (\<lambda>biome.
           bind_err (palette_has (demo_palette_refs SUPPORTED_BIOMES) biome ''wall'') (\<lambda>present.
             require present ''material_key missing in palette_refs'')) SUPPORTED_BIOMES = Inr ()"
    by (rule for_each_all)
      (simp add: palette_has_def obj_get_def demo_refs_lookup bind_err_Inr obj_has_def require_def)
  then show ?thesis
    by (simp add: check_block_def demo_block_def check_keys_def obj_has_def obj_get_def
        bind_err_Inr as_int_triplet_def int_item_def check_state_def parse_plain_names
        require_def assert_in_bounds_def Let_def)
qed

lemma demo_plan_accepted: "validate_plan_shape (demo_plan SUPPORTED_BIOMES ''wall'') = Inr ()"
proof -
  have p: "for_each (check_palette (demo_palette_refs SUPPORTED_BIOMES)) SUPPORTED_BIOMES = Inr ()"
    by (rule for_each_all) (simp add: demo_palette_ok)
  have "set (map fst (demo_palette_refs SUPPORTED_BIOMES)) = set SUPPORTED_BIOMES"
    by (simp only: demo_refs_keys)
  then have k1: "fst ` set (demo_palette_refs SUPPORTED_BIOMES) = set SUPPORTED_BIOMES"
    by simp
  have k2: "demo_palette_refs SUPPORTED_BIOMES \<noteq> []"
    by (simp add: demo_palette_refs_def SUPPORTED_BIOMES_def)
  have j: "check_jigsaw (2, 1, 1) (JObj [(''pos'', JList [JInt 1, JInt 0, JInt 0]),
                                      (''name'', JStr ''acm:door''),
                                      (''target'', JStr ''acm:street''),
                                      (''pool'', JStr ''acm:streets''),
                                      (''final_state'', JStr ''minecraft:air''),
                                      (''joint'', JStr ''aligned''),
                                      (''orientation'', JStr ''north_up'')]) = Inr ()"
    by (simp add: check_jigsaw_def check_keys_def obj_has_def obj_get_def
        bind_err_Inr as_int_triplet_def int_item_def check_state_def parse_plain_names
        require_def assert_in_bounds_def Let_def nonblank_str_def strip_def is_space_def
        VALID_JIGSAW_ORIENTATIONS_def)
  show ?thesis
    unfolding demo_plan_def validate_plan_shape_def demo_members_def
    by (simp add: check_keys_def obj_has_def obj_get_def bind_err_Inr as_int_triplet_def
        int_item_def require_def Let_def nonblank_str_def strip_def is_space_def PLAN_TYPES_def
        each_in_list_def p k1 k2 j demo_block_ok)
qed

end
